theory Spec2Isabelle
  imports Main
begin

section \<open>Shared fetch utilities (src/utils/fetcher.ts)\<close>

text \<open>
  A JavaScript string is a sequence of UTF-16 code units; it is modelled as a list with
  one element for each code unit, so that \<open>text.length\<close> is \<open>length text\<close>.
  The functions below only count, cut and concatenate code units.
\<close>

subsection \<open>truncate\<close>

text \<open>The literal \<open>"\n\n... [truncated]"\<close>: two line feeds, then the visible text.\<close>

definition truncated_marker :: string where
  "truncated_marker = [CHR 0x0A, CHR 0x0A] @ ''... [truncated]''"

text \<open>
  \<open>String.prototype.slice(start, end)\<close> on integer arguments: a negative index counts
  from the end of the string, every index is clamped to \<open>[0, length]\<close>, and the result
  is empty when the clamped end does not exceed the clamped start.
\<close>

definition js_slice :: "string \<Rightarrow> int \<Rightarrow> int \<Rightarrow> string" where
  "js_slice s start fin =
     (let len = int (length s);
          from = (if start < 0 then max (len + start) 0 else min start len);
          to = (if fin < 0 then max (len + fin) 0 else min fin len)
      in take (nat (max (to - from) 0)) (drop (nat from) s))"

text \<open>
  \<open>truncate(text, maxLength)\<close>, here \<open>truncate_text\<close>. The bound is a JavaScript number; the integers are
  modelled (as \<open>int\<close>, negative values included), fractional values and NaN are not.
\<close>

definition truncate_text :: "string \<Rightarrow> int \<Rightarrow> string" where
  "truncate_text text maxLength =
     (if int (length text) \<le> maxLength then text
      else js_slice text 0 maxLength @ truncated_marker)"

subsection \<open>Promises, thrown values and the upstream\<close>

text \<open>
  A value caught by \<open>catch (error)\<close>: either an instance of \<open>Error\<close> with its
  \<open>name\<close> and \<open>message\<close> (a \<open>DOMException\<close> is one), or any other thrown value,
  represented by what \<open>String(error)\<close> gives for it.
\<close>

datatype js_error = ErrorObject string string | NonError string

text \<open>An awaited promise either yields a value or throws.\<close>

datatype 'a settled = Fulfilled 'a | Rejected js_error

text \<open>
  A promise as the helpers meet it: the milliseconds it takes to settle, and how it
  settles. \<open>resolved x\<close> is the \<open>return x\<close> of an async function. \<open>await\<close> and
  \<open>try_catch\<close> add up the time that has passed.
\<close>

type_synonym 'a promise = "nat \<times> 'a settled"

definition resolved :: "'a \<Rightarrow> 'a promise" where
  "resolved x = (0, Fulfilled x)"

fun await :: "'a promise \<Rightarrow> ('a \<Rightarrow> 'b promise) \<Rightarrow> 'b promise" where
  "await (t, Fulfilled x) k = (case k x of (t', r) \<Rightarrow> (t + t', r))"
| "await (t, Rejected e) k = (t, Rejected e)"

fun try_catch :: "'a promise \<Rightarrow> (js_error \<Rightarrow> 'a promise) \<Rightarrow> 'a promise" where
  "try_catch (t, Fulfilled x) h = (t, Fulfilled x)"
| "try_catch (t, Rejected e) h = (case h e of (t', r) \<Rightarrow> (t + t', r))"

text \<open>
  The \<open>Response\<close> of the Fetch API, as far as the helpers read it. \<open>json_body\<close> is
  \<open>response.json()\<close>: the time the reading of the body takes once the headers are
  there, and its outcome; a parse failure rejects, the JSON value \<open>null\<close> is \<open>None\<close>.
  \<open>text_body\<close> is \<open>response.text()\<close>  in the same way.
\<close>

record 'a Response =
  ok :: bool
  status :: nat
  statusText :: string
  json_body :: "'a option promise"
  text_body :: "string promise"

text \<open>
  What the network does for one URL: the time in milliseconds after which the promise of
  the global \<open>fetch\<close> settles (the headers have arrived, or the request has failed)
  when nothing aborts it, and how it settles.
\<close>

record 'a upstream =
  settles_after :: nat
  outcome :: "'a Response settled"

text \<open>\<open>FetchOptions\<close>: the optional \<open>timeout\<close>; the other fields go to \<open>fetch\<close> untouched.\<close>

record FetchOptions =
  timeout :: "nat option"

record 'a FetchResult =
  data :: "'a option"
  error :: "string option"

definition DEFAULT_TIMEOUT :: nat where
  "DEFAULT_TIMEOUT = 10000"

text \<open>The destructuring default \<open>{ timeout = DEFAULT_TIMEOUT, ...fetchOptions }\<close>.\<close>

definition timeout_of :: "FetchOptions \<Rightarrow> nat" where
  "timeout_of options = (case timeout options of None \<Rightarrow> DEFAULT_TIMEOUT | Some t \<Rightarrow> t)"

text \<open>
  The delay Node's \<open>setTimeout\<close> uses for a requested delay of \<open>ms\<close> milliseconds: a
  delay below 1 or above \<open>2^31 - 1\<close> is replaced by 1.
\<close>

definition timer_delay :: "nat \<Rightarrow> nat" where
  "timer_delay ms = (if ms < 1 \<or> 2147483647 < ms then 1 else ms)"

text \<open>The rejection of a fetch whose signal was aborted.\<close>

definition AbortError :: js_error where
  "AbortError = ErrorObject ''AbortError'' ''This operation was aborted''"

text \<open>
  \<open>fetchWithTimeout\<close>: the timer armed by \<open>setTimeout\<close> aborts the controller unless the
  fetch has settled before, in which case \<open>finally\<close> clears the timer. A fetch that would
  settle at the very instant of the timer is taken as aborted. The body is read by the
  callers, after the timer was cleared: nothing aborts \<open>json_body\<close> or \<open>text_body\<close>.
\<close>

definition fetchWithTimeout ::
  "(string \<Rightarrow> 'a upstream) \<Rightarrow> string \<Rightarrow> FetchOptions \<Rightarrow> 'a Response promise" where
  "fetchWithTimeout fetch url options =
     (let delay = timer_delay (timeout_of options)
      in if delay \<le> settles_after (fetch url) then (delay, Rejected AbortError)
         else (settles_after (fetch url), outcome (fetch url)))"

text \<open>Template literals print a number in decimal.\<close>

function decimal :: "nat \<Rightarrow> string" where
  "decimal n =
     (if n < 10 then [''0123456789'' ! n]
      else decimal (n div 10) @ [''0123456789'' ! (n mod 10)])"
  by pat_completeness auto
termination
  by (relation "measure id") auto

declare decimal.simps [simp del]

text \<open>The \<open>catch\<close> block shared by \<open>fetchJson\<close> and \<open>fetchText\<close>.\<close>

fun on_error :: "js_error \<Rightarrow> 'a FetchResult promise" where
  "on_error (ErrorObject nm msg) =
     (if nm = ''AbortError''
      then resolved \<lparr>data = None, error = Some ''Request timed out''\<rparr>
      else resolved \<lparr>data = None, error = Some msg\<rparr>)"
| "on_error (NonError shown) = resolved \<lparr>data = None, error = Some shown\<rparr>"

definition http_error :: "'a Response \<Rightarrow> string" where
  "http_error response = ''HTTP '' @ decimal (status response) @ '': '' @ statusText response"

definition fetchJson ::
  "(string \<Rightarrow> 'a upstream) \<Rightarrow> string \<Rightarrow> FetchOptions \<Rightarrow> 'a FetchResult promise" where
  "fetchJson fetch url options =
     try_catch
       (await (fetchWithTimeout fetch url options) (\<lambda>response.
          if \<not> ok response
          then resolved \<lparr>data = None, error = Some (http_error response)\<rparr>
          else await (json_body response) (\<lambda>d.
                 resolved \<lparr>data = d, error = None\<rparr>)))
       on_error"

definition fetchText ::
  "(string \<Rightarrow> 'a upstream) \<Rightarrow> string \<Rightarrow> FetchOptions \<Rightarrow> string FetchResult promise" where
  "fetchText fetch url options =
     try_catch
       (await (fetchWithTimeout fetch url options) (\<lambda>response.
          if \<not> ok response
          then resolved \<lparr>data = None, error = Some (http_error response)\<rparr>
          else await (text_body response) (\<lambda>d.
                 resolved \<lparr>data = Some d, error = None\<rparr>)))
       on_error"

section \<open>Tool descriptors (src/tools/github.ts, src/tools/npm.ts, tools/docs)\<close>

text \<open>
  A descriptor's \<open>name\<close> and \<open>description\<close>; its input schema and handler play no part
  in what the server does with the descriptor and are left out.
\<close>

record tool =
  name :: string
  description :: string

definition githubTools :: "tool list" where
  "githubTools =
     [\<lparr>name = ''fetch_github_readme'',
       description = ''Fetch README from a public GitHub repo''\<rparr>,
      \<lparr>name = ''fetch_github_file'',
       description = ''Fetch any file from a public GitHub repository''\<rparr>,
      \<lparr>name = ''get_repo_info'',
       description = ''Get metadata and statistics about a GitHub repository''\<rparr>,
      \<lparr>name = ''list_repo_contents'',
       description = ''List files and folders in a GitHub repository directory''\<rparr>,
      \<lparr>name = ''get_github_releases'',
       description = ''Get recent releases and changelogs from a GitHub repository''\<rparr>]"

definition npmTools :: "tool list" where
  "npmTools =
     [\<lparr>name = ''get_npm_package'',
       description = ''Get detailed information about an npm package''\<rparr>,
      \<lparr>name = ''search_npm_packages'',
       description = ''Search for packages on npm registry''\<rparr>,
      \<lparr>name = ''get_package_versions'',
       description = ''Get version history of an npm package''\<rparr>]"

text \<open>
  The documentation tools: the \<open>docsTools\<close> array of the JavaScript tools/docs module.
  The tests of the TypeScript module (src/tools/docs.test.ts) name the same two tools, and
  the tests of the server expect ten tools in \<open>allTools\<close>.
\<close>

definition docsTools :: "tool list" where
  "docsTools =
     [\<lparr>name = ''fetch_url_content'',
       description = ''Fetch and extract readable text content from any URL. Useful for reading documentation pages, blog posts, or articles.''\<rparr>,
      \<lparr>name = ''search_mdn'',
       description = ''Search MDN Web Docs for JavaScript, HTML, CSS, and Web API documentation''\<rparr>]"

definition allTools :: "tool list" where
  "allTools = githubTools @ npmTools @ docsTools"

section \<open>The session registry and the request router (src/server.ts)\<close>

subsection \<open>Objects of the SDK and what the server does to them\<close>

text \<open>
  \<open>McpServer\<close> and \<open>StreamableHTTPServerTransport\<close> come from the SDK. An object is a
  reference (the number of its allocation); every call the server makes on one is written
  to a trace, in the order of the calls, together with the server's own reads and writes
  of the response, the sessions map and the timer.
\<close>

type_synonym ref = nat

text \<open>The request as the handlers read it: the \<open>mcp-session-id\<close> header and the body.\<close>

record request =
  session_header :: "string option"
  body :: string

record Session =
  server :: ref
  transport :: ref

datatype json = JObject "(string \<times> string) list"

datatype effect =
    NewMcpServer ref
  | RegisterTool ref string string
  | NewTransport ref
  | Connect ref ref
  | HandleRequest ref request "string option"
  | Close ref
  | SessionsSet string Session
  | SessionsDelete string
  | SetTimeout nat string
  | StatusJson nat json
  | StatusEnd nat

text \<open>
  What the SDK does during one request, as far as the handler can see it: whether the
  awaited \<open>server.connect\<close> and \<open>transport.handleRequest\<close> reject, and what
  \<open>transport.sessionId\<close> reads after the first request was handled (the value of
  \<open>randomUUID()\<close> if the transport called its \<open>sessionIdGenerator\<close>, else
  \<open>undefined\<close>).
\<close>

record sdk =
  connect_rejects :: bool
  handle_rejects :: bool
  sessionId :: "string option"

text \<open>
  How a handler ends: with a response of its own, with the response the transport wrote
  in \<open>handleRequest\<close>, or with the rejection of an awaited SDK call.
\<close>

datatype reply = Json nat json | End nat | FromTransport ref | Rejection

text \<open>
  The process: the \<open>sessions\<close> map, the pending eviction timers (due time in milliseconds
  and the key the callback closed over, in the order they were set), the clock, the next
  free reference and the trace.
\<close>

record state =
  sessions :: "string \<rightharpoonup> Session"
  timers :: "(nat \<times> string) list"
  now :: nat
  next_ref :: ref
  trace :: "effect list"

definition initial :: state where
  "initial = \<lparr>sessions = Map.empty, timers = [], now = 0, next_ref = 0, trace = []\<rparr>"

definition emit :: "effect \<Rightarrow> state \<Rightarrow> state" where
  "emit e st = st\<lparr>trace := trace st @ [e]\<rparr>"

definition new_object :: "state \<Rightarrow> ref \<times> state" where
  "new_object st = (next_ref st, st\<lparr>next_ref := Suc (next_ref st)\<rparr>)"

subsection \<open>createMcpServer\<close>

text \<open>The body of the loop \<open>for (const tool of allTools)\<close>.\<close>

fun register_all :: "ref \<Rightarrow> tool list \<Rightarrow> state \<Rightarrow> state" where
  "register_all srv [] st = st"
| "register_all srv (t # ts) st =
     register_all srv ts (emit (RegisterTool srv (name t) (description t)) st)"

definition createMcpServer :: "state \<Rightarrow> ref \<times> state" where
  "createMcpServer st =
     (let (srv, st1) = new_object st;
          st2 = emit (NewMcpServer srv) st1
      in (srv, register_all srv allTools st2))"

subsection \<open>The handlers of /mcp\<close>

text \<open>
  Node runs a handler without interruption up to its next \<open>await\<close>. The GET and DELETE
  handlers and the timer's callback read and write the map before any \<open>await\<close>. The
  POST handler reads the map at its start and, when it creates a session, writes it after
  the awaited SDK calls; the write depends on the earlier read only through the decision
  to create. Each handler is therefore one step of the model, taken at the time of its
  last access to the map, and the clock moves between steps only.
\<close>

text \<open>The delay of the eviction timer, \<open>30 * 60 * 1000\<close> milliseconds.\<close>

definition IDLE_MS :: nat where
  "IDLE_MS = 30 * 60 * 1000"

text \<open>
  \<open>app.post("/mcp")\<close>. A header that is absent or the empty string is falsy, so the map
  is not consulted for it; so is a \<open>sessionId\<close> that is \<open>undefined\<close> or empty after the
  first request.
\<close>

definition post_mcp :: "sdk \<Rightarrow> request \<Rightarrow> state \<Rightarrow> reply \<times> state" where
  "post_mcp k req st =
     (let session = (case session_header req of
                       None \<Rightarrow> None
                     | Some sid \<Rightarrow> if sid = [] then None else sessions st sid)
      in case session of
           Some s \<Rightarrow>
             (let st1 = emit (HandleRequest (transport s) req (Some (body req))) st
              in if handle_rejects k then (Rejection, st1)
                 else (FromTransport (transport s), st1))
         | None \<Rightarrow>
             (let (srv, st1) = createMcpServer st;
                  (tr, st2) = new_object st1;
                  st3 = emit (NewTransport tr) st2;
                  st4 = emit (Connect srv tr) st3
              in if connect_rejects k then (Rejection, st4)
                 else
                   (let st5 = emit (HandleRequest tr req (Some (body req))) st4
                    in if handle_rejects k then (Rejection, st5)
                       else
                         (case sessionId k of
                            None \<Rightarrow> (FromTransport tr, st5)
                          | Some newSessionId \<Rightarrow>
                              if newSessionId = [] then (FromTransport tr, st5)
                              else
                                (let entry = \<lparr>server = srv, transport = tr\<rparr>;
                                     st6 = emit (SessionsSet newSessionId entry)
                                             (st5\<lparr>sessions :=
                                                (sessions st5)(newSessionId \<mapsto> entry)\<rparr>);
                                     due = now st6 + IDLE_MS;
                                     st7 = emit (SetTimeout due newSessionId)
                                             (st6\<lparr>timers :=
                                                timers st6 @ [(due, newSessionId)]\<rparr>)
                                 in (FromTransport tr, st7))))))"

text \<open>\<open>app.get("/mcp")\<close>.\<close>

definition invalid_session_body :: json where
  "invalid_session_body = JObject [(''error'', ''Invalid or missing session ID'')]"

definition get_mcp :: "sdk \<Rightarrow> request \<Rightarrow> state \<Rightarrow> reply \<times> state" where
  "get_mcp k req st =
     (case (case session_header req of
              None \<Rightarrow> None
            | Some sid \<Rightarrow> if sid = [] then None else sessions st sid) of
        None \<Rightarrow> (Json 400 invalid_session_body, emit (StatusJson 400 invalid_session_body) st)
      | Some s \<Rightarrow>
          (let st1 = emit (HandleRequest (transport s) req None) st
           in if handle_rejects k then (Rejection, st1)
              else (FromTransport (transport s), st1)))"

text \<open>
  The removal of an entry that is there: \<open>transport.close()\<close> (not awaited), then
  \<open>sessions.delete\<close>. The DELETE handler and the timer's callback both do this, each
  after its own test that the key is in the map.
\<close>

definition close_and_delete :: "string \<Rightarrow> state \<Rightarrow> state" where
  "close_and_delete sid st =
     (case sessions st sid of
        None \<Rightarrow> st
      | Some s \<Rightarrow>
          emit (SessionsDelete sid)
            ((emit (Close (transport s)) st)\<lparr>sessions := (sessions st)(sid := None)\<rparr>))"

text \<open>\<open>app.delete("/mcp")\<close>.\<close>

definition delete_mcp :: "request \<Rightarrow> state \<Rightarrow> reply \<times> state" where
  "delete_mcp req st =
     (let st1 = (case session_header req of
                   None \<Rightarrow> st
                 | Some sid \<Rightarrow> if sid = [] then st else close_and_delete sid st)
      in (End 204, emit (StatusEnd 204) st1))"

subsection \<open>The eviction timer and the passing of time\<close>

text \<open>The callback given to \<open>setTimeout\<close>, for the key it closed over.\<close>

definition evict :: "string \<Rightarrow> state \<Rightarrow> state" where
  "evict newSessionId st = close_and_delete newSessionId st"

fun fire_all :: "(nat \<times> string) list \<Rightarrow> state \<Rightarrow> state" where
  "fire_all [] st = st"
| "fire_all ((due, sid) # rest) st = fire_all rest (evict sid st)"

text \<open>
  \<open>elapse d\<close>: the clock advances by \<open>d\<close> milliseconds with no request in between; the
  timers that are due by then run, in the order they were set (all have the same delay),
  and leave the list.
\<close>

definition elapse :: "nat \<Rightarrow> state \<Rightarrow> state" where
  "elapse d st =
     (let t = now st + d;
          due = filter (\<lambda>(at, sid). at \<le> t) (timers st);
          pending = filter (\<lambda>(at, sid). \<not> at \<le> t) (timers st)
      in fire_all due (st\<lparr>now := t, timers := pending\<rparr>))"

subsection \<open>Runs of the process\<close>

datatype event = POST sdk request | GET sdk request | DELETE request | Elapse nat

fun step :: "event \<Rightarrow> state \<Rightarrow> state" where
  "step (POST k req) st = snd (post_mcp k req st)"
| "step (GET k req) st = snd (get_mcp k req st)"
| "step (DELETE req) st = snd (delete_mcp req st)"
| "step (Elapse d) st = elapse d st"

fun run :: "event list \<Rightarrow> state \<Rightarrow> state" where
  "run [] st = st"
| "run (e # es) st = run es (step e st)"

subsection \<open>Reading a trace\<close>

text \<open>
  The tool names registered on server \<open>srv\<close> at the moment of its first \<open>connect\<close>, in
  the order of registration; \<open>None\<close> if the trace never connects it.
\<close>

fun registered_at_connect :: "effect list \<Rightarrow> ref \<Rightarrow> string list \<Rightarrow> string list option" where
  "registered_at_connect [] srv acc = None"
| "registered_at_connect (RegisterTool s nm d # es) srv acc =
     registered_at_connect es srv (if s = srv then acc @ [nm] else acc)"
| "registered_at_connect (Connect s t # es) srv acc =
     (if s = srv then Some acc else registered_at_connect es srv acc)"
| "registered_at_connect (e # es) srv acc = registered_at_connect es srv acc"

text \<open>How often the trace closes transport \<open>tr\<close>.\<close>

definition closes :: "effect list \<Rightarrow> ref \<Rightarrow> nat" where
  "closes es tr = count_list es (Close tr)"

text \<open>The requests handed to transport \<open>tr\<close>, in order.\<close>

fun handled :: "effect list \<Rightarrow> ref \<Rightarrow> request list" where
  "handled [] tr = []"
| "handled (HandleRequest t req b # es) tr =
     (if t = tr then req # handled es tr else handled es tr)"
| "handled (e # es) tr = handled es tr"

text \<open>The references an effect mentions.\<close>

fun refs_of :: "effect \<Rightarrow> ref list" where
  "refs_of (NewMcpServer r) = [r]"
| "refs_of (RegisterTool r nm d) = [r]"
| "refs_of (NewTransport r) = [r]"
| "refs_of (Connect s t) = [s, t]"
| "refs_of (HandleRequest t req b) = [t]"
| "refs_of (Close t) = [t]"
| "refs_of (SessionsSet sid s) = [server s, transport s]"
| "refs_of e = []"

text \<open>An effect with the session header of a forwarded request blanked.\<close>

fun without_header :: "effect \<Rightarrow> effect" where
  "without_header (HandleRequest t req b) = HandleRequest t (req\<lparr>session_header := None\<rparr>) b"
| "without_header e = e"

text \<open>
  What a session-creating POST does before it hands the request to the new transport:
  \<open>createMcpServer()\<close>, \<open>new StreamableHTTPServerTransport\<close>, \<open>server.connect\<close>.
\<close>

definition setup_trace :: "ref \<Rightarrow> effect list" where
  "setup_trace n =
     NewMcpServer n # map (\<lambda>t. RegisterTool n (name t) (description t)) allTools @
       [NewTransport (Suc n), Connect n (Suc n)]"

subsection \<open>Registry notions of the specification\<close>

text \<open>
  \<open>lookup(token)\<close> of the specification: the entry the header resolves to in the map,
  if the header is there and the map has it.
\<close>

definition resolve :: "(string \<rightharpoonup> Session) \<Rightarrow> string option \<Rightarrow> Session option" where
  "resolve m h = (case h of None \<Rightarrow> None | Some sid \<Rightarrow> m sid)"

text \<open>
  The test the handlers apply to the header: a header that is missing, empty, or not a
  key of the map finds no session.
\<close>

definition falsy_or_unknown :: "state \<Rightarrow> request \<Rightarrow> bool" where
  "falsy_or_unknown st req \<longleftrightarrow>
     (case session_header req of None \<Rightarrow> True | Some sid \<Rightarrow> sid = [] \<or> sessions st sid = None)"

text \<open>An engine is configured when all descriptors were registered before its connect.\<close>

definition configured :: "effect list \<Rightarrow> ref \<Rightarrow> bool" where
  "configured es srv \<longleftrightarrow> registered_at_connect es srv [] = Some (map name allTools)"

subsection \<open>Invariants of the process state\<close>

text \<open>
  The empty string is no key, the map is finite, every reference in use was allocated,
  and every engine in the map is configured.
\<close>

definition invariant :: "state \<Rightarrow> bool" where
  "invariant st \<longleftrightarrow>
     sessions st [] = None \<and>
     finite (dom (sessions st)) \<and>
     (\<forall>e \<in> set (trace st). \<forall>r \<in> set (refs_of e). r < next_ref st) \<and>
     (\<forall>sid s. sessions st sid = Some s \<longrightarrow>
        server s < next_ref st \<and> transport s < next_ref st \<and> configured (trace st) (server s))"

text \<open>
  No transport in the map has been closed, and no transport is in the map under two keys.
\<close>

definition unclosed :: "state \<Rightarrow> bool" where
  "unclosed st \<longleftrightarrow>
     (\<forall>sid s. sessions st sid = Some s \<longrightarrow> Close (transport s) \<notin> set (trace st)) \<and>
     (\<forall>sid sid' s s'. sessions st sid = Some s \<longrightarrow> sessions st sid' = Some s' \<longrightarrow>
        transport s = transport s' \<longrightarrow> sid = sid')"

subsection \<open>Example inputs\<close>

text \<open>
  Upstreams: one whose headers arrive after 15 seconds, one whose body is the JSON value
  \<open>null\<close>, one whose body cannot be read, one whose body takes a minute to read, one
  that answers 404, one whose fetch fails with an \<open>Error\<close>, and one whose fetch throws
  a string.
\<close>

definition slow_upstream :: "string \<Rightarrow> string upstream" where
  "slow_upstream url =
     \<lparr>settles_after = 15000,
      outcome = Fulfilled \<lparr>ok = True, status = 200, statusText = ''OK'',
                          json_body = (3, Fulfilled (Some ''{}'')),
                          text_body = (3, Fulfilled ''{}'')\<rparr>\<rparr>"

definition null_upstream :: "string \<Rightarrow> string upstream" where
  "null_upstream url =
     \<lparr>settles_after = 120,
      outcome = Fulfilled \<lparr>ok = True, status = 200, statusText = ''OK'',
                          json_body = (2, Fulfilled None),
                          text_body = (2, Fulfilled ''null'')\<rparr>\<rparr>"

definition garbled_upstream :: "string \<Rightarrow> string upstream" where
  "garbled_upstream url =
     \<lparr>settles_after = 120,
      outcome = Fulfilled \<lparr>ok = True, status = 200, statusText = ''OK'',
                          json_body = (2, Rejected (ErrorObject ''SyntaxError'' ''Unexpected token'')),
                          text_body = (2, Rejected (NonError ''stream closed''))\<rparr>\<rparr>"

definition trickle_upstream :: "string \<Rightarrow> string upstream" where
  "trickle_upstream url =
     \<lparr>settles_after = 120,
      outcome = Fulfilled \<lparr>ok = True, status = 200, statusText = ''OK'',
                          json_body = (60000, Fulfilled (Some ''{}'')),
                          text_body = (60000, Fulfilled ''{}'')\<rparr>\<rparr>"

definition missing_upstream :: "string \<Rightarrow> string upstream" where
  "missing_upstream url =
     \<lparr>settles_after = 120,
      outcome = Fulfilled \<lparr>ok = False, status = 404, statusText = ''Not Found'',
                          json_body = (2, Rejected (ErrorObject ''SyntaxError'' ''Unexpected token'')),
                          text_body = (2, Fulfilled ''Not Found'')\<rparr>\<rparr>"

definition failing_upstream :: "string \<Rightarrow> string upstream" where
  "failing_upstream url =
     \<lparr>settles_after = 5, outcome = Rejected (ErrorObject ''Error'' ''Network error'')\<rparr>"

definition odd_upstream :: "string \<Rightarrow> string upstream" where
  "odd_upstream url = \<lparr>settles_after = 5, outcome = Rejected (NonError ''string error'')\<rparr>"

text \<open>
  A client: the SDK mints the identifier below on the first request; the first request
  carries no header, a later one carries the identifier, a third a token nobody issued.
\<close>

definition demo_id :: string where
  "demo_id = ''123e4567-e89b-42d3-a456-426614174000''"

definition demo_sdk :: sdk where
  "demo_sdk = \<lparr>connect_rejects = False, handle_rejects = False, sessionId = Some demo_id\<rparr>"

definition demo_initialize :: request where
  "demo_initialize = \<lparr>session_header = None, body = ''initialize''\<rparr>"

definition demo_call :: request where
  "demo_call = \<lparr>session_header = Some demo_id, body = ''tools/call''\<rparr>"

definition demo_stale :: request where
  "demo_stale = \<lparr>session_header = Some ''nonexistent-session'', body = ''initialize''\<rparr>"

definition demo_events :: "event list" where
  "demo_events =
     [POST demo_sdk demo_initialize, Elapse 1740000, POST demo_sdk demo_call, Elapse 60000]"

text \<open>The state of the process after the first request of the example client.\<close>

definition demo_live :: state where
  "demo_live =
     \<lparr>sessions = [demo_id \<mapsto> \<lparr>server = 0, transport = 1\<rparr>],
      timers = [(1800000, demo_id)], now = 0, next_ref = 2,
      trace = setup_trace 0 @
        [HandleRequest 1 demo_initialize (Some ''initialize''),
         SessionsSet demo_id \<lparr>server = 0, transport = 1\<rparr>,
         SetTimeout 1800000 demo_id]\<rparr>"

section \<open>Lemmas\<close>

subsection \<open>Closed forms of the handlers\<close>

lemma register_all_eq:
  "register_all srv ts st =
     st\<lparr>trace := trace st @ map (\<lambda>t. RegisterTool srv (name t) (description t)) ts\<rparr>"
  by (induction ts arbitrary: st) (simp_all add: emit_def)

lemma createMcpServer_eq:
  "createMcpServer st =
     (next_ref st,
      st\<lparr>next_ref := Suc (next_ref st),
         trace := trace st @ NewMcpServer (next_ref st) #
                    map (\<lambda>t. RegisterTool (next_ref st) (name t) (description t)) allTools\<rparr>)"
  by (simp add: createMcpServer_def new_object_def emit_def register_all_eq)

lemma post_mcp_reuse:
  assumes "session_header req = Some sid" "sid \<noteq> []" "sessions st sid = Some s"
  shows "post_mcp k req st =
           (if handle_rejects k then Rejection else FromTransport (transport s),
            st\<lparr>trace := trace st @ [HandleRequest (transport s) req (Some (body req))]\<rparr>)"
  using assms by (simp add: post_mcp_def emit_def Let_def)

lemma post_mcp_create:
  assumes "falsy_or_unknown st req"
  shows "post_mcp k req st =
     (let n = next_ref st;
          h = HandleRequest (Suc n) req (Some (body req));
          entry = \<lparr>server = n, transport = Suc n\<rparr>;
          due = now st + IDLE_MS
      in if connect_rejects k
         then (Rejection, st\<lparr>next_ref := Suc (Suc n), trace := trace st @ setup_trace n\<rparr>)
         else if handle_rejects k
         then (Rejection, st\<lparr>next_ref := Suc (Suc n), trace := trace st @ setup_trace n @ [h]\<rparr>)
         else (case sessionId k of
                 None \<Rightarrow> (FromTransport (Suc n),
                          st\<lparr>next_ref := Suc (Suc n), trace := trace st @ setup_trace n @ [h]\<rparr>)
               | Some sid \<Rightarrow>
                   if sid = []
                   then (FromTransport (Suc n),
                         st\<lparr>next_ref := Suc (Suc n), trace := trace st @ setup_trace n @ [h]\<rparr>)
                   else (FromTransport (Suc n),
                         st\<lparr>sessions := (sessions st)(sid \<mapsto> entry),
                            timers := timers st @ [(due, sid)],
                            next_ref := Suc (Suc n),
                            trace := trace st @ setup_trace n @
                                       [h, SessionsSet sid entry, SetTimeout due sid]\<rparr>)))"
proof -
  have miss: "(case session_header req of None \<Rightarrow> None
               | Some sid \<Rightarrow> if sid = [] then None else sessions st sid) = None"
    using assms by (auto simp: falsy_or_unknown_def split: option.splits)
  show ?thesis
    unfolding post_mcp_def miss
    by (simp add: createMcpServer_eq new_object_def emit_def Let_def setup_trace_def
             split: option.splits)
qed

subsection \<open>Reading the registrations off a trace\<close>

lemma rac_mono:
  "registered_at_connect es srv acc = Some x \<Longrightarrow>
   registered_at_connect (es @ fs) srv acc = Some x"
  by (induction es srv acc rule: registered_at_connect.induct) (auto split: if_splits)

lemma rac_skip:
  "\<forall>e \<in> set es. srv \<notin> set (refs_of e) \<Longrightarrow>
   registered_at_connect (es @ fs) srv acc = registered_at_connect fs srv acc"
  by (induction es srv acc rule: registered_at_connect.induct) auto

lemma rac_regs:
  "registered_at_connect (map (\<lambda>t. RegisterTool n (name t) (description t)) ts @ rest) n acc =
   registered_at_connect rest n (acc @ map name ts)"
  by (induction ts arbitrary: acc) simp_all

lemma rac_setup:
  "registered_at_connect (setup_trace n @ fs) n [] = Some (map name allTools)"
  by (simp add: setup_trace_def rac_regs)

lemma configured_fresh:
  assumes "\<forall>e \<in> set es. \<forall>r \<in> set (refs_of e). r < n"
  shows "configured (es @ setup_trace n @ fs) n"
proof -
  have "\<forall>e \<in> set es. n \<notin> set (refs_of e)" using assms by auto
  then show ?thesis by (simp add: configured_def rac_skip rac_setup)
qed

lemma configured_mono: "configured es srv \<Longrightarrow> configured (es @ fs) srv"
  by (simp add: configured_def rac_mono)

lemma refs_setup: "e \<in> set (setup_trace n) \<Longrightarrow> r \<in> set (refs_of e) \<Longrightarrow> r < Suc (Suc n)"
  by (auto simp: setup_trace_def)

subsection \<open>The invariants hold in every reachable state\<close>

lemma invariant_initial: "invariant initial"
  by (simp add: invariant_def initial_def)

lemma invariant_emit:
  assumes "invariant st" "\<forall>r \<in> set (refs_of e). r < next_ref st"
  shows "invariant (st\<lparr>trace := trace st @ [e]\<rparr>)"
  using assms by (auto simp: invariant_def configured_mono)

lemma invariant_grow:
  assumes "invariant st" "next_ref st \<le> m" "\<forall>e \<in> set es. \<forall>r \<in> set (refs_of e). r < m"
  shows "invariant (st\<lparr>next_ref := m, trace := trace st @ es\<rparr>)"
  using assms by (fastforce simp: invariant_def configured_mono)

lemma invariant_post_create:
  assumes inv: "invariant st" and miss: "falsy_or_unknown st req"
  shows "invariant (snd (post_mcp k req st))"
proof -
  let ?n = "next_ref st"
  let ?h = "HandleRequest (Suc ?n) req (Some (body req))"
  have a: "invariant (st\<lparr>next_ref := Suc (Suc ?n), trace := trace st @ setup_trace ?n\<rparr>)"
    using inv by (intro invariant_grow) (auto dest: refs_setup)
  have b: "invariant (st\<lparr>next_ref := Suc (Suc ?n), trace := trace st @ setup_trace ?n @ [?h]\<rparr>)"
    using inv by (intro invariant_grow) (auto dest: refs_setup)
  have c: "invariant
             (st\<lparr>sessions := (sessions st)(sid \<mapsto> \<lparr>server = ?n, transport = Suc ?n\<rparr>),
                 timers := timers st @ [(now st + IDLE_MS, sid)],
                 next_ref := Suc (Suc ?n),
                 trace := trace st @ setup_trace ?n @
                   [?h, SessionsSet sid \<lparr>server = ?n, transport = Suc ?n\<rparr>,
                    SetTimeout (now st + IDLE_MS) sid]\<rparr>)"
    if "sid \<noteq> []" for sid
  proof -
    have fresh: "\<forall>e \<in> set (trace st). \<forall>r \<in> set (refs_of e). r < ?n"
      using inv by (simp add: invariant_def)
    have new: "configured (trace st @ setup_trace ?n @ fs) ?n" for fs
      using fresh by (rule configured_fresh)
    have old: "configured (trace st @ fs) (server s)" if "sessions st x = Some s" for x s fs
      using inv that by (auto simp: invariant_def configured_mono)
    have lt: "r < Suc (Suc ?n)" if "r < ?n" for r
      using that by simp
    have bound: "server s < ?n \<and> transport s < ?n" if "sessions st x = Some s" for x s
      using inv that by (auto simp: invariant_def)
    have i1: "((sessions st)(sid \<mapsto> \<lparr>server = ?n, transport = Suc ?n\<rparr>)) [] = None"
      using inv \<open>sid \<noteq> []\<close> by (simp add: invariant_def)
    have i2: "finite (dom ((sessions st)(sid \<mapsto> \<lparr>server = ?n, transport = Suc ?n\<rparr>)))"
      using inv by (simp add: invariant_def)
    have i3: "\<forall>e \<in> set (trace st @ setup_trace ?n @
                   [?h, SessionsSet sid \<lparr>server = ?n, transport = Suc ?n\<rparr>,
                    SetTimeout (now st + IDLE_MS) sid]).
                \<forall>r \<in> set (refs_of e). r < Suc (Suc ?n)"
      using fresh by (auto dest: refs_setup lt)
    have i4: "server s < Suc (Suc ?n) \<and> transport s < Suc (Suc ?n) \<and>
              configured (trace st @ setup_trace ?n @ fs) (server s)"
      if "((sessions st)(sid \<mapsto> \<lparr>server = ?n, transport = Suc ?n\<rparr>)) x = Some s" for x s fs
    proof (cases "x = sid")
      case True
      then have "s = \<lparr>server = ?n, transport = Suc ?n\<rparr>" using that by simp
      then show ?thesis using new by simp
    next
      case False
      then have "sessions st x = Some s" using that by simp
      then show ?thesis using bound [of x s] old [of x s] by (simp add: less_SucI)
    qed
    show ?thesis
      unfolding invariant_def using i1 i2 i3 i4 by simp
  qed
  show ?thesis
    using a b c by (simp add: post_mcp_create [OF miss] Let_def split: option.splits)
qed

lemma invariant_post:
  assumes "invariant st"
  shows "invariant (snd (post_mcp k req st))"
proof (cases "falsy_or_unknown st req")
  case True
  then show ?thesis using assms by (rule invariant_post_create [rotated])
next
  case False
  then obtain sid s where h: "session_header req = Some sid" "sid \<noteq> []" "sessions st sid = Some s"
    by (auto simp: falsy_or_unknown_def split: option.splits)
  have "transport s < next_ref st" using assms h by (auto simp: invariant_def)
  then show ?thesis
    using assms by (simp add: post_mcp_reuse [OF h] invariant_emit)
qed

lemma invariant_get:
  assumes "invariant st"
  shows "invariant (snd (get_mcp k req st))"
proof -
  have "transport s < next_ref st" if "sessions st sid = Some s" for sid s
    using assms that by (auto simp: invariant_def)
  then show ?thesis
    using assms
    by (auto simp: get_mcp_def emit_def Let_def invariant_emit split: option.splits)
qed

lemma close_and_delete_eq:
  "close_and_delete sid st =
     (case sessions st sid of
        None \<Rightarrow> st
      | Some s \<Rightarrow> st\<lparr>sessions := (sessions st)(sid := None),
                    trace := trace st @ [Close (transport s), SessionsDelete sid]\<rparr>)"
  by (simp add: close_and_delete_def emit_def split: option.splits)

lemma invariant_close_and_delete:
  assumes "invariant st"
  shows "invariant (close_and_delete sid st)"
  using assms
  by (auto simp: close_and_delete_eq invariant_def configured_mono split: option.splits if_splits)

lemma invariant_delete:
  assumes "invariant st"
  shows "invariant (snd (delete_mcp req st))"
  using assms
  by (auto simp: delete_mcp_def emit_def Let_def invariant_emit invariant_close_and_delete
           split: option.splits)

lemma invariant_fire_all: "invariant st \<Longrightarrow> invariant (fire_all ts st)"
  by (induction ts st rule: fire_all.induct) (simp_all add: evict_def invariant_close_and_delete)

lemma invariant_clock: "invariant st \<Longrightarrow> invariant (st\<lparr>now := t, timers := ts\<rparr>)"
  by (simp add: invariant_def)

lemma invariant_elapse: "invariant st \<Longrightarrow> invariant (elapse d st)"
  by (simp add: elapse_def Let_def invariant_fire_all invariant_clock)

lemma invariant_step: "invariant st \<Longrightarrow> invariant (step e st)"
  by (cases e) (simp_all add: invariant_post invariant_get invariant_delete invariant_elapse)

lemma invariant_run: "invariant st \<Longrightarrow> invariant (run es st)"
  by (induction es arbitrary: st) (simp_all add: invariant_step)

lemma invariant_reachable: "invariant (run es initial)"
  by (simp add: invariant_run invariant_initial)

lemma unclosed_initial: "unclosed initial"
  by (simp add: unclosed_def initial_def)

lemma unclosed_emit:
  assumes "unclosed st" "\<forall>t. e \<noteq> Close t"
  shows "unclosed (st\<lparr>trace := trace st @ [e]\<rparr>)"
  using assms by (auto simp: unclosed_def)

lemma unclosed_grow:
  assumes "unclosed st" "\<forall>t. Close t \<notin> set es"
  shows "unclosed (st\<lparr>next_ref := m, trace := trace st @ es\<rparr>)"
  using assms by (auto simp: unclosed_def)

lemma no_close_setup: "Close t \<notin> set (setup_trace n)"
  by (auto simp: setup_trace_def)

lemma unclosed_post_create:
  assumes inv: "invariant st" and u: "unclosed st" and miss: "falsy_or_unknown st req"
  shows "unclosed (snd (post_mcp k req st))"
proof -
  let ?n = "next_ref st"
  let ?h = "HandleRequest (Suc ?n) req (Some (body req))"
  have a: "unclosed (st\<lparr>next_ref := Suc (Suc ?n), trace := trace st @ setup_trace ?n\<rparr>)"
    using u by (intro unclosed_grow) (auto simp: no_close_setup)
  have b: "unclosed (st\<lparr>next_ref := Suc (Suc ?n), trace := trace st @ setup_trace ?n @ [?h]\<rparr>)"
    using u by (intro unclosed_grow) (auto simp: no_close_setup)
  have c: "unclosed
             (st\<lparr>sessions := (sessions st)(sid \<mapsto> \<lparr>server = ?n, transport = Suc ?n\<rparr>),
                 timers := timers st @ [(now st + IDLE_MS, sid)],
                 next_ref := Suc (Suc ?n),
                 trace := trace st @ setup_trace ?n @
                   [?h, SessionsSet sid \<lparr>server = ?n, transport = Suc ?n\<rparr>,
                    SetTimeout (now st + IDLE_MS) sid]\<rparr>)" for sid
  proof -
    have fresh: "Close (Suc ?n) \<notin> set (trace st)"
      using inv by (fastforce simp: invariant_def)
    have bound: "transport s < ?n" if "sessions st x = Some s" for x s
      using inv that by (auto simp: invariant_def)
    have old: "Close (transport s) \<notin> set (trace st)" if "sessions st x = Some s" for x s
      using u that by (auto simp: unclosed_def)
    have inj: "x = y" if "sessions st x = Some s" "sessions st y = Some s'"
      "transport s = transport s'" for x y s s'
      using u that unfolding unclosed_def by blast
    have u1: "Close (transport s) \<notin> set (trace st @ setup_trace ?n @
                   [?h, SessionsSet sid \<lparr>server = ?n, transport = Suc ?n\<rparr>,
                    SetTimeout (now st + IDLE_MS) sid])"
      if "((sessions st)(sid \<mapsto> \<lparr>server = ?n, transport = Suc ?n\<rparr>)) x = Some s" for x s
      using that fresh old [of x s] by (cases "x = sid") (auto simp: no_close_setup)
    have u2: "x = y"
      if "((sessions st)(sid \<mapsto> \<lparr>server = ?n, transport = Suc ?n\<rparr>)) x = Some s"
         "((sessions st)(sid \<mapsto> \<lparr>server = ?n, transport = Suc ?n\<rparr>)) y = Some s'"
         "transport s = transport s'" for x y s s'
    proof (cases "x = sid"; cases "y = sid")
      assume "x = sid" "y = sid" then show ?thesis by simp
    next
      assume "x = sid" "y \<noteq> sid"
      then have "transport s = Suc ?n" "sessions st y = Some s'" using that by auto
      then show ?thesis using bound [of y s'] that by simp
    next
      assume "x \<noteq> sid" "y = sid"
      then have "transport s' = Suc ?n" "sessions st x = Some s" using that by auto
      then show ?thesis using bound [of x s] that by simp
    next
      assume "x \<noteq> sid" "y \<noteq> sid"
      then show ?thesis using that inj [of x s y s'] by simp
    qed
    show ?thesis
      unfolding unclosed_def
    proof (intro conjI allI impI)
      fix x s
      assume "sessions (st\<lparr>sessions := (sessions st)(sid \<mapsto> \<lparr>server = ?n, transport = Suc ?n\<rparr>),
                 timers := timers st @ [(now st + IDLE_MS, sid)],
                 next_ref := Suc (Suc ?n),
                 trace := trace st @ setup_trace ?n @
                   [?h, SessionsSet sid \<lparr>server = ?n, transport = Suc ?n\<rparr>,
                    SetTimeout (now st + IDLE_MS) sid]\<rparr>) x = Some s"
      then have "((sessions st)(sid \<mapsto> \<lparr>server = ?n, transport = Suc ?n\<rparr>)) x = Some s"
        by simp
      from u1 [OF this] show "Close (transport s) \<notin> set (trace (st\<lparr>sessions := (sessions st)(sid \<mapsto> \<lparr>server = ?n, transport = Suc ?n\<rparr>),
                 timers := timers st @ [(now st + IDLE_MS, sid)],
                 next_ref := Suc (Suc ?n),
                 trace := trace st @ setup_trace ?n @
                   [?h, SessionsSet sid \<lparr>server = ?n, transport = Suc ?n\<rparr>,
                    SetTimeout (now st + IDLE_MS) sid]\<rparr>))"
        by simp
    next
      fix x y s s'
      assume "sessions (st\<lparr>sessions := (sessions st)(sid \<mapsto> \<lparr>server = ?n, transport = Suc ?n\<rparr>),
                 timers := timers st @ [(now st + IDLE_MS, sid)],
                 next_ref := Suc (Suc ?n),
                 trace := trace st @ setup_trace ?n @
                   [?h, SessionsSet sid \<lparr>server = ?n, transport = Suc ?n\<rparr>,
                    SetTimeout (now st + IDLE_MS) sid]\<rparr>) x = Some s"
        and "sessions (st\<lparr>sessions := (sessions st)(sid \<mapsto> \<lparr>server = ?n, transport = Suc ?n\<rparr>),
                 timers := timers st @ [(now st + IDLE_MS, sid)],
                 next_ref := Suc (Suc ?n),
                 trace := trace st @ setup_trace ?n @
                   [?h, SessionsSet sid \<lparr>server = ?n, transport = Suc ?n\<rparr>,
                    SetTimeout (now st + IDLE_MS) sid]\<rparr>) y = Some s'"
        and t: "transport s = transport s'"
      then have "((sessions st)(sid \<mapsto> \<lparr>server = ?n, transport = Suc ?n\<rparr>)) x = Some s"
        "((sessions st)(sid \<mapsto> \<lparr>server = ?n, transport = Suc ?n\<rparr>)) y = Some s'"
        by simp_all
      then show "x = y" using t by (rule u2)
    qed
  qed
  show ?thesis
    using a b c by (simp add: post_mcp_create [OF miss] Let_def split: option.splits)
qed

lemma unclosed_post:
  assumes "invariant st" "unclosed st"
  shows "unclosed (snd (post_mcp k req st))"
proof (cases "falsy_or_unknown st req")
  case True
  with assms show ?thesis by (simp add: unclosed_post_create)
next
  case False
  then obtain sid s where h: "session_header req = Some sid" "sid \<noteq> []" "sessions st sid = Some s"
    by (auto simp: falsy_or_unknown_def split: option.splits)
  show ?thesis
    using assms by (simp add: post_mcp_reuse [OF h] unclosed_emit)
qed

lemma unclosed_get:
  assumes "unclosed st"
  shows "unclosed (snd (get_mcp k req st))"
  using assms
  by (auto simp: get_mcp_def emit_def Let_def unclosed_emit split: option.splits)

lemma unclosed_close_and_delete:
  assumes "unclosed st"
  shows "unclosed (close_and_delete sid st)"
proof (cases "sessions st sid")
  case None
  then show ?thesis using assms by (simp add: close_and_delete_eq)
next
  case (Some s)
  have "Close (transport s') \<noteq> Close (transport s)"
    if "sessions st x = Some s'" "x \<noteq> sid" for x s'
    using assms that Some unfolding unclosed_def by blast
  then show ?thesis
    using assms Some
    by (auto simp: close_and_delete_eq unclosed_def split: if_splits)
qed

lemma unclosed_delete:
  assumes "unclosed st"
  shows "unclosed (snd (delete_mcp req st))"
  using assms
  by (auto simp: delete_mcp_def emit_def Let_def unclosed_emit unclosed_close_and_delete
           split: option.splits)

lemma unclosed_fire_all: "unclosed st \<Longrightarrow> unclosed (fire_all ts st)"
  by (induction ts st rule: fire_all.induct) (simp_all add: evict_def unclosed_close_and_delete)

lemma unclosed_clock: "unclosed st \<Longrightarrow> unclosed (st\<lparr>now := t, timers := ts\<rparr>)"
  by (simp add: unclosed_def)

lemma unclosed_elapse: "unclosed st \<Longrightarrow> unclosed (elapse d st)"
  by (simp add: elapse_def Let_def unclosed_fire_all unclosed_clock)

lemma unclosed_step: "invariant st \<Longrightarrow> unclosed st \<Longrightarrow> unclosed (step e st)"
  by (cases e) (simp_all add: unclosed_post unclosed_get unclosed_delete unclosed_elapse)

lemma unclosed_run: "invariant st \<Longrightarrow> unclosed st \<Longrightarrow> unclosed (run es st)"
  by (induction es arbitrary: st) (simp_all add: unclosed_step invariant_step)

lemma unclosed_reachable: "unclosed (run es initial)"
  by (simp add: unclosed_run invariant_initial unclosed_initial)

subsection \<open>How a key enters the map\<close>



subsection \<open>Requests handed to a transport\<close>

lemma resolve_None_falsy: "resolve (sessions st) (session_header req) = None \<Longrightarrow> falsy_or_unknown st req"
  by (auto simp: resolve_def falsy_or_unknown_def split: option.splits)

lemma handled_append: "handled (es @ fs) t = handled es t @ handled fs t"
  by (induction es t rule: handled.induct) simp_all

lemma handled_fresh: "\<forall>e \<in> set es. t \<notin> set (refs_of e) \<Longrightarrow> handled es t = []"
  by (induction es t rule: handled.induct) auto

lemma handled_registrations:
  "handled (map (\<lambda>t. RegisterTool n (name t) (description t)) ts) tr = []"
  by (induction ts) simp_all

lemma handled_setup: "handled (setup_trace n) (Suc n) = []"
  by (simp add: setup_trace_def handled_append handled_registrations)

subsection \<open>The fetch helpers\<close>

lemma fetch_aborted:
  "timer_delay (timeout_of options) \<le> settles_after (fetch url) \<Longrightarrow>
   fetchWithTimeout fetch url options = (timer_delay (timeout_of options), Rejected AbortError)"
  by (simp add: fetchWithTimeout_def)

lemma fetch_in_time:
  "settles_after (fetch url) < timer_delay (timeout_of options) \<Longrightarrow>
   fetchWithTimeout fetch url options = (settles_after (fetch url), outcome (fetch url))"
  by (simp add: fetchWithTimeout_def)

lemma default_delay: "timeout options = None \<Longrightarrow> timer_delay (timeout_of options) = 10000"
  by (simp add: timeout_of_def DEFAULT_TIMEOUT_def timer_delay_def)

lemma on_error_named:
  "on_error (ErrorObject nm msg) =
     (0, Fulfilled \<lparr>data = None,
                    error = Some (if nm = ''AbortError'' then ''Request timed out'' else msg)\<rparr>)"
  by (simp add: resolved_def)

lemma on_error_other:
  "on_error (NonError shown) = (0, Fulfilled \<lparr>data = None, error = Some shown\<rparr>)"
  by (simp add: resolved_def)

lemma on_error_immediate:
  "\<exists>res. on_error e = (0, Fulfilled res) \<and> data res = None \<and> error res \<noteq> None"
  by (cases e) (simp_all add: on_error_named on_error_other del: on_error.simps)

lemma on_error_split:
  "(case on_error e of (t', x) \<Rightarrow> f t' x) = f 0 (snd (on_error e))"
  by (cases e) (simp_all add: on_error_named on_error_other del: on_error.simps)

lemma caught: "try_catch (t, Rejected e) on_error = (t, snd (on_error e))"
  by (simp add: on_error_split del: on_error.simps)

lemma fetchJson_aborted:
  assumes "timer_delay (timeout_of options) \<le> settles_after (fetch url)"
  shows "fetchJson fetch url options =
           (timer_delay (timeout_of options),
            Fulfilled \<lparr>data = None, error = Some ''Request timed out''\<rparr>)"
  using assms
  by (simp add: fetchJson_def fetchWithTimeout_def caught AbortError_def resolved_def)

lemma fetchText_aborted:
  assumes "timer_delay (timeout_of options) \<le> settles_after (fetch url)"
  shows "fetchText fetch url options =
           (timer_delay (timeout_of options),
            Fulfilled \<lparr>data = None, error = Some ''Request timed out''\<rparr>)"
  using assms
  by (simp add: fetchText_def fetchWithTimeout_def caught AbortError_def resolved_def)

lemma fetchJson_rejected:
  assumes "settles_after (fetch url) < timer_delay (timeout_of options)"
    and "outcome (fetch url) = Rejected e"
  shows "fetchJson fetch url options = (settles_after (fetch url), snd (on_error e))"
  using assms
  by (simp add: fetchJson_def fetchWithTimeout_def caught on_error_split del: on_error.simps)

lemma fetchText_rejected:
  assumes "settles_after (fetch url) < timer_delay (timeout_of options)"
    and "outcome (fetch url) = Rejected e"
  shows "fetchText fetch url options = (settles_after (fetch url), snd (on_error e))"
  using assms
  by (simp add: fetchText_def fetchWithTimeout_def caught on_error_split del: on_error.simps)

lemma fetchJson_bad_status:
  assumes "settles_after (fetch url) < timer_delay (timeout_of options)"
    and "outcome (fetch url) = Fulfilled response" and "\<not> ok response"
  shows "fetchJson fetch url options =
           (settles_after (fetch url),
            Fulfilled \<lparr>data = None,
                       error = Some (''HTTP '' @ decimal (status response) @ '': '' @
                                     statusText response)\<rparr>)"
  using assms
  by (simp add: fetchJson_def fetchWithTimeout_def resolved_def http_error_def del: on_error.simps)

lemma fetchText_bad_status:
  assumes "settles_after (fetch url) < timer_delay (timeout_of options)"
    and "outcome (fetch url) = Fulfilled response" and "\<not> ok response"
  shows "fetchText fetch url options =
           (settles_after (fetch url),
            Fulfilled \<lparr>data = None,
                       error = Some (''HTTP '' @ decimal (status response) @ '': '' @
                                     statusText response)\<rparr>)"
  using assms
  by (simp add: fetchText_def fetchWithTimeout_def resolved_def http_error_def del: on_error.simps)

lemma fetchJson_body_read:
  assumes "settles_after (fetch url) < timer_delay (timeout_of options)"
    and "outcome (fetch url) = Fulfilled response" and "ok response"
    and "json_body response = (b, Fulfilled d)"
  shows "fetchJson fetch url options =
           (settles_after (fetch url) + b, Fulfilled \<lparr>data = d, error = None\<rparr>)"
  using assms
  by (simp add: fetchJson_def fetchWithTimeout_def resolved_def del: on_error.simps)

lemma fetchJson_body_failed:
  assumes "settles_after (fetch url) < timer_delay (timeout_of options)"
    and "outcome (fetch url) = Fulfilled response" and "ok response"
    and "json_body response = (b, Rejected e)"
  shows "fetchJson fetch url options = (settles_after (fetch url) + b, snd (on_error e))"
  using assms
  by (simp add: fetchJson_def fetchWithTimeout_def caught on_error_split del: on_error.simps)

lemma fetchText_body_read:
  assumes "settles_after (fetch url) < timer_delay (timeout_of options)"
    and "outcome (fetch url) = Fulfilled response" and "ok response"
    and "text_body response = (b, Fulfilled d)"
  shows "fetchText fetch url options =
           (settles_after (fetch url) + b, Fulfilled \<lparr>data = Some d, error = None\<rparr>)"
  using assms
  by (simp add: fetchText_def fetchWithTimeout_def resolved_def del: on_error.simps)

lemma fetchText_body_failed:
  assumes "settles_after (fetch url) < timer_delay (timeout_of options)"
    and "outcome (fetch url) = Fulfilled response" and "ok response"
    and "text_body response = (b, Rejected e)"
  shows "fetchText fetch url options = (settles_after (fetch url) + b, snd (on_error e))"
  using assms
  by (simp add: fetchText_def fetchWithTimeout_def caught on_error_split del: on_error.simps)

text \<open>Every way the helpers can end, with the shape of the result.\<close>

lemma fetchJson_ends:
  fixes fetch :: "string \<Rightarrow> 'a upstream"
  obtains (failure) t res where "fetchJson fetch url options = (t, Fulfilled res)"
      "data res = None" "error res \<noteq> None"
  | (success) t d response b where "fetchJson fetch url options =
        (t, Fulfilled \<lparr>data = d, error = None\<rparr>)"
      "outcome (fetch url) = Fulfilled response" "ok response"
      "json_body response = (b, Fulfilled d)"
proof (cases "timer_delay (timeout_of options) \<le> settles_after (fetch url)")
  case True
  show ?thesis
    using True by (intro failure [of _ "\<lparr>data = None, error = Some ''Request timed out''\<rparr>"])
      (simp_all add: fetchJson_aborted)
next
  case False
  then have t: "settles_after (fetch url) < timer_delay (timeout_of options)" by simp
  show ?thesis
  proof (cases "outcome (fetch url)")
    case (Rejected e)
    obtain res :: "'a FetchResult" where r: "on_error e = (0, Fulfilled res)" "data res = None" "error res \<noteq> None"
      using on_error_immediate [of e] by (auto simp del: on_error.simps)
    show ?thesis
      using t Rejected r by (intro failure [of _ res]) (simp_all add: fetchJson_rejected)
  next
    case (Fulfilled response)
    show ?thesis
    proof (cases "ok response")
      case False
      show ?thesis
        using t Fulfilled False
        by (intro failure [of _ "\<lparr>data = None, error = Some (http_error response)\<rparr>"])
           (simp_all add: fetchJson_bad_status http_error_def)
    next
      case True
      obtain b jb where jb: "json_body response = (b, jb)" by (cases "json_body response")
      show ?thesis
      proof (cases jb)
        case inner: (Fulfilled d)
        show ?thesis
          using t Fulfilled True jb inner
          by (intro success [of _ d response b]) (simp_all add: fetchJson_body_read)
      next
        case (Rejected e)
        obtain res :: "'a FetchResult" where r: "on_error e = (0, Fulfilled res)" "data res = None" "error res \<noteq> None"
          using on_error_immediate [of e] by (auto simp del: on_error.simps)
        show ?thesis
          using t Fulfilled True jb Rejected r
          by (intro failure [of _ res]) (simp_all add: fetchJson_body_failed)
      qed
    qed
  qed
qed

lemma fetchText_ends:
  fixes fetch :: "string \<Rightarrow> 'a upstream"
  obtains (failure) t res where "fetchText fetch url options = (t, Fulfilled res)"
      "data res = None" "error res \<noteq> None"
  | (success) t d where "fetchText fetch url options =
        (t, Fulfilled \<lparr>data = Some d, error = None\<rparr>)"
proof (cases "timer_delay (timeout_of options) \<le> settles_after (fetch url)")
  case True
  show ?thesis
    using True by (intro failure [of _ "\<lparr>data = None, error = Some ''Request timed out''\<rparr>"])
      (simp_all add: fetchText_aborted)
next
  case False
  then have t: "settles_after (fetch url) < timer_delay (timeout_of options)" by simp
  show ?thesis
  proof (cases "outcome (fetch url)")
    case (Rejected e)
    obtain res :: "string FetchResult" where r: "on_error e = (0, Fulfilled res)" "data res = None" "error res \<noteq> None"
      using on_error_immediate [of e] by (auto simp del: on_error.simps)
    show ?thesis
      using t Rejected r by (intro failure [of _ res]) (simp_all add: fetchText_rejected)
  next
    case (Fulfilled response)
    show ?thesis
    proof (cases "ok response")
      case False
      show ?thesis
        using t Fulfilled False
        by (intro failure [of _ "\<lparr>data = None, error = Some (http_error response)\<rparr>"])
           (simp_all add: fetchText_bad_status http_error_def)
    next
      case True
      obtain b tb where tb: "text_body response = (b, tb)" by (cases "text_body response")
      show ?thesis
      proof (cases tb)
        case inner: (Fulfilled d)
        show ?thesis
          using t Fulfilled True tb inner
          by (intro success [of _ d]) (simp_all add: fetchText_body_read)
      next
        case (Rejected e)
        obtain res :: "string FetchResult" where r: "on_error e = (0, Fulfilled res)" "data res = None" "error res \<noteq> None"
          using on_error_immediate [of e] by (auto simp del: on_error.simps)
        show ?thesis
          using t Fulfilled True tb Rejected r
          by (intro failure [of _ res]) (simp_all add: fetchText_body_failed)
      qed
    qed
  qed
qed

lemma fetchJson_total: "\<exists>t res. fetchJson fetch url options = (t, Fulfilled res)"
  by (rule fetchJson_ends [of fetch url options]) blast+

lemma fetchText_total: "\<exists>t res. fetchText fetch url options = (t, Fulfilled res)"
  by (rule fetchText_ends [of fetch url options]) blast+

lemma fetchJson_shape:
  assumes "fetchJson fetch url options = (t, Fulfilled res)"
  shows "(data res = None \<or> error res = None) \<and>
         (data res = None \<and> error res = None \<longrightarrow>
            (\<exists>r b. outcome (fetch url) = Fulfilled r \<and> ok r \<and> json_body r = (b, Fulfilled None)))"
proof (rule fetchJson_ends [of fetch url options])
  fix t' res'
  assume "fetchJson fetch url options = (t', Fulfilled res')" "data res' = None"
    "error res' \<noteq> None"
  then show ?thesis using assms by auto
next
  fix t' d response b
  assume "fetchJson fetch url options = (t', Fulfilled \<lparr>data = d, error = None\<rparr>)"
    "outcome (fetch url) = Fulfilled response" "ok response"
    "json_body response = (b, Fulfilled d)"
  then show ?thesis using assms by auto
qed

lemma fetchText_shape:
  assumes "fetchText fetch url options = (t, Fulfilled res)"
  shows "(data res = None) \<noteq> (error res = None)"
proof (rule fetchText_ends [of fetch url options])
  fix t' res'
  assume "fetchText fetch url options = (t', Fulfilled res')" "data res' = None"
    "error res' \<noteq> None"
  then show ?thesis using assms by auto
next
  fix t' d
  assume "fetchText fetch url options = (t', Fulfilled \<lparr>data = Some d, error = None\<rparr>)"
  then show ?thesis using assms by auto
qed

lemma decimal_404: "decimal 404 = ''404''"
  by (simp add: decimal.simps)

subsection \<open>The example client, step by step\<close>

lemma no_set_setup: "SessionsSet x s \<notin> set (setup_trace n)"
  by (auto simp: setup_trace_def)

lemma demo_id_nonempty: "demo_id \<noteq> []"
  by (simp add: demo_id_def)

lemma demo_created: "run [POST demo_sdk demo_initialize] initial = demo_live"
proof -
  have miss: "falsy_or_unknown initial demo_initialize"
    by (simp add: falsy_or_unknown_def demo_initialize_def)
  have "run [POST demo_sdk demo_initialize] initial =
          snd (post_mcp demo_sdk demo_initialize initial)"
    by simp
  also have "\<dots> = demo_live"
    unfolding post_mcp_create [OF miss]
    using demo_id_nonempty
    by (simp add: Let_def demo_sdk_def initial_def IDLE_MS_def demo_initialize_def demo_live_def)
  finally show ?thesis .
qed

lemma demo_live_entry: "sessions demo_live demo_id = Some \<lparr>server = 0, transport = 1\<rparr>"
  by (simp add: demo_live_def)

lemma demo_waited:
  "run [POST demo_sdk demo_initialize, Elapse 1740000] initial = demo_live\<lparr>now := 1740000\<rparr>"
proof -
  have "run [POST demo_sdk demo_initialize, Elapse 1740000] initial =
          elapse 1740000 (run [POST demo_sdk demo_initialize] initial)"
    by simp
  also have "\<dots> = demo_live\<lparr>now := 1740000\<rparr>"
    unfolding demo_created by (simp add: elapse_def demo_live_def)
  finally show ?thesis .
qed

lemma demo_used:
  "post_mcp demo_sdk demo_call (demo_live\<lparr>now := 1740000\<rparr>) =
     (FromTransport 1,
      demo_live\<lparr>now := 1740000,
                trace := trace demo_live @ [HandleRequest 1 demo_call (Some ''tools/call'')]\<rparr>)"
proof -
  have h: "session_header demo_call = Some demo_id"
    "sessions (demo_live\<lparr>now := 1740000\<rparr>) demo_id = Some \<lparr>server = 0, transport = 1\<rparr>"
    by (simp_all add: demo_call_def demo_live_def)
  show ?thesis
    unfolding post_mcp_reuse [OF h(1) demo_id_nonempty h(2)]
    by (simp add: demo_sdk_def demo_call_def)
qed

lemma demo_used_run:
  "run [POST demo_sdk demo_initialize, Elapse 1740000, POST demo_sdk demo_call] initial =
     demo_live\<lparr>now := 1740000,
               trace := trace demo_live @ [HandleRequest 1 demo_call (Some ''tools/call'')]\<rparr>"
proof -
  have "run [POST demo_sdk demo_initialize, Elapse 1740000, POST demo_sdk demo_call] initial =
          snd (post_mcp demo_sdk demo_call
                 (run [POST demo_sdk demo_initialize, Elapse 1740000] initial))"
    by simp
  then show ?thesis unfolding demo_waited demo_used by simp
qed

lemma demo_evicted:
  "run demo_events initial =
     demo_live\<lparr>sessions := Map.empty, timers := [], now := 1800000,
               trace := trace demo_live @
                 [HandleRequest 1 demo_call (Some ''tools/call''),
                  Close 1, SessionsDelete demo_id]\<rparr>"
proof -
  have "run demo_events initial =
          elapse 60000
            (run [POST demo_sdk demo_initialize, Elapse 1740000, POST demo_sdk demo_call] initial)"
    by (simp add: demo_events_def)
  also have "\<dots> =
     demo_live\<lparr>sessions := Map.empty, timers := [], now := 1800000,
               trace := trace demo_live @
                 [HandleRequest 1 demo_call (Some ''tools/call''),
                  Close 1, SessionsDelete demo_id]\<rparr>"
    unfolding demo_used_run
    by (simp add: elapse_def evict_def close_and_delete_eq demo_live_def)
  finally show ?thesis .
qed

lemma demo_idle_evicted:
  "run [POST demo_sdk demo_initialize, Elapse 1800000] initial =
     demo_live\<lparr>sessions := Map.empty, timers := [], now := 1800000,
               trace := trace demo_live @ [Close 1, SessionsDelete demo_id]\<rparr>"
proof -
  have "run [POST demo_sdk demo_initialize, Elapse 1800000] initial =
          elapse 1800000 (run [POST demo_sdk demo_initialize] initial)"
    by simp
  also have "\<dots> =
     demo_live\<lparr>sessions := Map.empty, timers := [], now := 1800000,
               trace := trace demo_live @ [Close 1, SessionsDelete demo_id]\<rparr>"
    unfolding demo_created
    by (simp add: elapse_def evict_def close_and_delete_eq demo_live_def)
  finally show ?thesis .
qed


lemma closes_demo_live: "closes (trace demo_live @ es) (Suc 0) = closes es (Suc 0)"
  by (simp add: closes_def demo_live_def no_close_setup)

subsection \<open>Cutting a prefix\<close>

lemma js_slice_prefix: "0 \<le> n \<Longrightarrow> js_slice s 0 n = take (nat n) s"
  by (auto simp: js_slice_def Let_def min_def max_def)

section \<open>The claims\<close>

subsection \<open>C1: idle eviction\<close>

text \<open>
  C1 asks that a session without a successful request for 30 minutes becomes unreachable
  with its transport closed exactly once, and that a session that keeps receiving
  requests stays reachable. The timer is set once, when the session is stored, and no
  handler sets it again. The example client creates a session, uses it successfully 29
  minutes later, and is evicted one minute after that request: 30 minutes after creation,
  the token no longer resolves, a GET with it is answered 400, and the transport was
  closed once. A session that is left alone for 30 minutes is evicted and closed once as
  well.
\<close>

theorem active_session_evicted_30_minutes_after_creation:
  "fst (post_mcp demo_sdk demo_call
          (run [POST demo_sdk demo_initialize, Elapse 1740000] initial)) = FromTransport 1 \<and>
   sessions (run [POST demo_sdk demo_initialize, Elapse 1740000, POST demo_sdk demo_call] initial)
     demo_id = Some \<lparr>server = 0, transport = 1\<rparr> \<and>
   now (run demo_events initial) = IDLE_MS \<and>
   sessions (run demo_events initial) demo_id = None \<and>
   closes (trace (run demo_events initial)) 1 = 1 \<and>
   fst (get_mcp demo_sdk demo_call (run demo_events initial)) = Json 400 invalid_session_body \<and>
   sessions (run [POST demo_sdk demo_initialize, Elapse 1800000] initial) demo_id = None \<and>
   closes (trace (run [POST demo_sdk demo_initialize, Elapse 1800000] initial)) 1 = 1"
proof -
  have a: "fst (post_mcp demo_sdk demo_call
          (run [POST demo_sdk demo_initialize, Elapse 1740000] initial)) = FromTransport 1"
    unfolding demo_waited demo_used by simp
  have b: "sessions
             (run [POST demo_sdk demo_initialize, Elapse 1740000, POST demo_sdk demo_call] initial)
             demo_id = Some \<lparr>server = 0, transport = 1\<rparr>"
    unfolding demo_used_run by (simp add: demo_live_def)
  have c: "now (run demo_events initial) = IDLE_MS"
    unfolding demo_evicted by (simp add: IDLE_MS_def)
  have d: "sessions (run demo_events initial) demo_id = None"
    unfolding demo_evicted by simp
  have e: "closes (trace (run demo_events initial)) 1 = 1"
    unfolding demo_evicted by (simp add: closes_demo_live) (simp add: closes_def)
  have f: "fst (get_mcp demo_sdk demo_call (run demo_events initial)) =
             Json 400 invalid_session_body"
    unfolding demo_evicted by (simp add: get_mcp_def demo_call_def)
  have g: "sessions (run [POST demo_sdk demo_initialize, Elapse 1800000] initial) demo_id = None"
    unfolding demo_idle_evicted by simp
  have h: "closes (trace (run [POST demo_sdk demo_initialize, Elapse 1800000] initial)) 1 = 1"
    unfolding demo_idle_evicted by (simp add: closes_demo_live) (simp add: closes_def)
  show ?thesis by (intro conjI a b c d e f g h)
qed

subsection \<open>C2: a POST without a resolvable token starts a session\<close>

text \<open>
  C2: in every reachable state, a POST whose header is absent or does not resolve in the
  map is never answered by the router itself (the reply is the new transport's, or the
  rejection of an SDK call); it allocates a server and a transport that no earlier effect
  mentions, registers and connects them, and hands this same request to the new
  transport as its first and only request so far. The same request without its header
  gives the same reply and the same map, timers and references, and the same trace up to
  the header of the forwarded request.
\<close>

theorem post_unresolved_starts_session:
  assumes "st = run evs initial"
    and "resolve (sessions st) (session_header req) = None"
    and "post_mcp k req st = (r, st')"
    and "post_mcp k (req\<lparr>session_header := None\<rparr>) st = (r0, st0)"
  shows "r = (if connect_rejects k \<or> handle_rejects k then Rejection
              else FromTransport (Suc (next_ref st))) \<and>
         (\<forall>code b. r \<noteq> Json code b) \<and>
         (\<forall>e \<in> set (trace st).
            next_ref st \<notin> set (refs_of e) \<and> Suc (next_ref st) \<notin> set (refs_of e)) \<and>
         (\<exists>rest. trace st' = trace st @ setup_trace (next_ref st) @ rest) \<and>
         handled (trace st') (Suc (next_ref st)) = (if connect_rejects k then [] else [req]) \<and>
         r0 = r \<and> sessions st0 = sessions st' \<and> timers st0 = timers st' \<and>
         now st0 = now st' \<and> next_ref st0 = next_ref st' \<and>
         map without_header (trace st0) = map without_header (trace st')"
proof -
  let ?n = "next_ref st"
  have inv: "invariant st" using assms(1) by (simp add: invariant_reachable)
  have miss: "falsy_or_unknown st req" using assms(2) by (rule resolve_None_falsy)
  have miss0: "falsy_or_unknown st (req\<lparr>session_header := None\<rparr>)"
    by (simp add: falsy_or_unknown_def)
  have fresh: "\<forall>e \<in> set (trace st). ?n \<notin> set (refs_of e) \<and> Suc ?n \<notin> set (refs_of e)"
    using inv by (fastforce simp: invariant_def)
  then have h0: "handled (trace st) (Suc ?n) = []"
    by (simp add: handled_fresh)
  note eq = assms(3) [unfolded post_mcp_create [OF miss]]
  note eq0 = assms(4) [unfolded post_mcp_create [OF miss0]]
  have r: "r = (if connect_rejects k \<or> handle_rejects k then Rejection
              else FromTransport (Suc ?n))"
    using eq by (auto simp: Let_def split: if_splits option.splits)
  have r0: "r0 = r"
    using eq eq0 by (auto simp: Let_def split: if_splits option.splits)
  have tr: "\<exists>rest. trace st' = trace st @ setup_trace ?n @ rest"
    using eq by (auto simp: Let_def split: if_splits option.splits)
  have hd: "handled (trace st') (Suc ?n) = (if connect_rejects k then [] else [req])"
    using eq h0 by (auto simp: Let_def handled_append handled_setup split: if_splits option.splits)
  have same: "sessions st0 = sessions st' \<and> timers st0 = timers st' \<and>
         now st0 = now st' \<and> next_ref st0 = next_ref st' \<and>
         map without_header (trace st0) = map without_header (trace st')"
    using eq eq0 by (auto simp: Let_def split: if_splits option.splits)
  show ?thesis using r r0 tr hd same fresh by auto
qed

theorem post_unresolved_starts_session_witness:
  "fst (post_mcp demo_sdk demo_stale initial) = FromTransport 1 \<and>
   fst (post_mcp demo_sdk (demo_stale\<lparr>session_header := None\<rparr>) initial) = FromTransport 1 \<and>
   handled (trace (snd (post_mcp demo_sdk demo_stale initial))) 1 = [demo_stale] \<and>
   sessions (snd (post_mcp demo_sdk (demo_stale\<lparr>session_header := None\<rparr>) initial)) =
     sessions (snd (post_mcp demo_sdk demo_stale initial))"
proof -
  have a: "initial = run [] initial" by simp
  have b: "resolve (sessions initial) (session_header demo_stale) = None"
    by (simp add: resolve_def initial_def demo_stale_def)
  have c: "post_mcp demo_sdk demo_stale initial =
             (fst (post_mcp demo_sdk demo_stale initial), snd (post_mcp demo_sdk demo_stale initial))"
    by simp
  have d: "post_mcp demo_sdk (demo_stale\<lparr>session_header := None\<rparr>) initial =
             (fst (post_mcp demo_sdk (demo_stale\<lparr>session_header := None\<rparr>) initial),
              snd (post_mcp demo_sdk (demo_stale\<lparr>session_header := None\<rparr>) initial))"
    by simp
  have n: "next_ref initial = 0" by (simp add: initial_def)
  show ?thesis
    using post_unresolved_starts_session [OF a b c d]
    by (simp add: n demo_sdk_def)
qed

subsection \<open>C3: registration after the identifier is minted\<close>




subsection \<open>C4: GET without a resolvable token\<close>

text \<open>
  C4: a GET whose header is missing or is not a key of the map is answered with status
  400 and the body \<open>{ "error": "Invalid or missing session ID" }\<close>; the state is
  unchanged but for the trace of the response, so no session is created.
\<close>

theorem get_unresolved_is_400:
  assumes "resolve (sessions st) (session_header req) = None"
  shows "get_mcp k req st =
           (Json 400 (JObject [(''error'', ''Invalid or missing session ID'')]),
            st\<lparr>trace := trace st @
                 [StatusJson 400 (JObject [(''error'', ''Invalid or missing session ID'')])]\<rparr>) \<and>
         sessions (snd (get_mcp k req st)) = sessions st"
  using assms
  by (auto simp: get_mcp_def resolve_def emit_def invalid_session_body_def split: option.splits)

theorem get_unresolved_is_400_witness:
  "get_mcp demo_sdk demo_stale initial =
     (Json 400 (JObject [(''error'', ''Invalid or missing session ID'')]),
      initial\<lparr>trace := trace initial @
        [StatusJson 400 (JObject [(''error'', ''Invalid or missing session ID'')])]\<rparr>) \<and>
   sessions (snd (get_mcp demo_sdk demo_stale initial)) = sessions initial"
proof -
  have "resolve (sessions initial) (session_header demo_stale) = None"
    by (simp add: resolve_def initial_def demo_stale_def)
  then show ?thesis by (rule get_unresolved_is_400)
qed

subsection \<open>C5: DELETE always succeeds\<close>

text \<open>
  C5: in every reachable state a DELETE is answered 204 with no body. If the token does
  not resolve, the state is unchanged but for the trace of the response. If it resolves,
  the handler closes the entry's transport, removes the entry and answers; the token is
  then absent from the map, and the whole trace closes that transport exactly once.
\<close>

theorem delete_always_204:
  assumes "st = run evs initial"
  shows "fst (delete_mcp req st) = End 204 \<and>
         (resolve (sessions st) (session_header req) = None \<longrightarrow>
            snd (delete_mcp req st) = st\<lparr>trace := trace st @ [StatusEnd 204]\<rparr>) \<and>
         (session_header req = Some sid \<and> sessions st sid = Some s \<longrightarrow>
            snd (delete_mcp req st) =
              st\<lparr>sessions := (sessions st)(sid := None),
                 trace := trace st @ [Close (transport s), SessionsDelete sid, StatusEnd 204]\<rparr> \<and>
            sessions (snd (delete_mcp req st)) sid = None \<and>
            closes (trace (snd (delete_mcp req st))) (transport s) = 1)"
proof -
  have inv: "invariant st" and u: "unclosed st"
    using assms by (simp_all add: invariant_reachable unclosed_reachable)
  have a: "fst (delete_mcp req st) = End 204"
    by (simp add: delete_mcp_def Let_def)
  have b: "snd (delete_mcp req st) = st\<lparr>trace := trace st @ [StatusEnd 204]\<rparr>"
    if "resolve (sessions st) (session_header req) = None"
    using that
    by (auto simp: delete_mcp_def Let_def resolve_def emit_def close_and_delete_eq
             split: option.splits)
  have c: "snd (delete_mcp req st) =
              st\<lparr>sessions := (sessions st)(sid := None),
                 trace := trace st @ [Close (transport s), SessionsDelete sid, StatusEnd 204]\<rparr> \<and>
            sessions (snd (delete_mcp req st)) sid = None \<and>
            closes (trace (snd (delete_mcp req st))) (transport s) = 1"
    if h: "session_header req = Some sid" "sessions st sid = Some s"
  proof -
    have ne: "sid \<noteq> []" using inv h by (auto simp: invariant_def)
    have never: "Close (transport s) \<notin> set (trace st)"
      using u h by (auto simp: unclosed_def)
    have eq: "snd (delete_mcp req st) =
              st\<lparr>sessions := (sessions st)(sid := None),
                 trace := trace st @ [Close (transport s), SessionsDelete sid, StatusEnd 204]\<rparr>"
      using h ne by (simp add: delete_mcp_def Let_def emit_def close_and_delete_eq)
    show ?thesis
      unfolding eq using never by (simp add: closes_def)
  qed
  show ?thesis using a b c by blast
qed

theorem delete_always_204_witness:
  "fst (delete_mcp demo_call demo_live) = End 204 \<and>
   sessions (snd (delete_mcp demo_call demo_live)) demo_id = None \<and>
   closes (trace (snd (delete_mcp demo_call demo_live))) 1 = 1 \<and>
   fst (delete_mcp demo_stale initial) = End 204 \<and>
   snd (delete_mcp demo_stale initial) = initial\<lparr>trace := trace initial @ [StatusEnd 204]\<rparr>"
proof -
  have a: "demo_live = run [POST demo_sdk demo_initialize] initial"
    by (simp only: demo_created)
  have b: "session_header demo_call = Some demo_id \<and>
           sessions demo_live demo_id = Some \<lparr>server = 0, transport = 1\<rparr>"
    by (simp add: demo_call_def demo_live_def)
  have c: "initial = run [] initial" by simp
  have d: "resolve (sessions initial) (session_header demo_stale) = None"
    by (simp add: resolve_def initial_def demo_stale_def)
  show ?thesis
    using delete_always_204 [OF a, of demo_call demo_id "\<lparr>server = 0, transport = 1\<rparr>"] b
      delete_always_204 [OF c, of demo_stale] d
    by (simp add: closes_demo_live) (simp add: closes_def)
qed

subsection \<open>C6: a POST with a known token is delegated\<close>

text \<open>
  C6: in every reachable state, a POST whose header is a key of the map hands the request
  to the transport of that entry and does nothing else: the map, and so its number of
  entries, is unchanged.
\<close>

theorem post_known_session_delegates:
  assumes "st = run evs initial" "session_header req = Some sid" "sessions st sid = Some s"
  shows "post_mcp k req st =
           (if handle_rejects k then Rejection else FromTransport (transport s),
            st\<lparr>trace := trace st @ [HandleRequest (transport s) req (Some (body req))]\<rparr>) \<and>
         sessions (snd (post_mcp k req st)) = sessions st \<and>
         card (dom (sessions (snd (post_mcp k req st)))) = card (dom (sessions st))"
proof -
  have "invariant st" using assms(1) by (simp add: invariant_reachable)
  then have "sid \<noteq> []" using assms(3) by (auto simp: invariant_def)
  from post_mcp_reuse [OF assms(2) this assms(3)] show ?thesis by simp
qed

theorem post_known_session_delegates_witness:
  "post_mcp demo_sdk demo_call demo_live =
     (FromTransport 1,
      demo_live\<lparr>trace := trace demo_live @ [HandleRequest 1 demo_call (Some ''tools/call'')]\<rparr>) \<and>
   sessions (snd (post_mcp demo_sdk demo_call demo_live)) = sessions demo_live"
proof -
  have a: "demo_live = run [POST demo_sdk demo_initialize] initial"
    by (simp only: demo_created)
  have b: "session_header demo_call = Some demo_id"
    by (simp add: demo_call_def)
  show ?thesis
    using post_known_session_delegates [OF a b demo_live_entry, of demo_sdk]
    by (simp add: demo_sdk_def demo_call_def)
qed

subsection \<open>C7: the fetch helpers return structured results\<close>

text \<open>
  C7, amended. \<open>fetchJson\<close> and \<open>fetchText\<close> never throw, and their result never has
  both \<open>data\<close> and \<open>error\<close>. The fetch is guarded by an abort timer whose delay \<open>d\<close>
  is the \<open>timeout\<close> option, 10 seconds when the caller gives none (Node replaces a delay
  below 1 ms or above \<open>2^31 - 1\<close> ms by 1 ms). If the timer expires before the fetch has
  settled, the call ends at that moment with the error \<open>Request timed out\<close>. If the
  exchange ends before the timer would expire, the call ends with it: a response with a
  non-success status gives the error \<open>HTTP <status>: <statusText>\<close>; a fetch or a
  reading of the body that fails gives the message of the error, or the thrown value as a
  string, and \<open>Request timed out\<close> for an error named \<open>AbortError\<close>; a body that was
  read gives \<open>data\<close> and no error. \<open>fetchText\<close> always has exactly one of \<open>data\<close> and
  \<open>error\<close>; \<open>fetchJson\<close> has neither only when the body is the JSON value \<open>null\<close>.
  Nothing is said here about a response whose headers arrive before the timer expires
  and whose body is still being read at that moment.
\<close>

theorem fetch_results_structured:
  assumes "d = timer_delay (timeout_of options)" and "s = settles_after (fetch url)"
  shows
  "(\<exists>t res. fetchJson fetch url options = (t, Fulfilled res)) \<and>
   (\<exists>t res. fetchText fetch url options = (t, Fulfilled res)) \<and>
   (timeout options = None \<longrightarrow> d = 10000) \<and>
   (d \<le> s \<longrightarrow>
      fetchJson fetch url options =
        (d, Fulfilled \<lparr>data = None, error = Some ''Request timed out''\<rparr>) \<and>
      fetchText fetch url options =
        (d, Fulfilled \<lparr>data = None, error = Some ''Request timed out''\<rparr>)) \<and>
   (s < d \<and> outcome (fetch url) = Fulfilled response \<and> \<not> ok response \<longrightarrow>
      fetchJson fetch url options =
        (s, Fulfilled \<lparr>data = None,
                       error = Some (''HTTP '' @ decimal (status response) @ '': '' @
                                     statusText response)\<rparr>) \<and>
      fetchText fetch url options =
        (s, Fulfilled \<lparr>data = None,
                       error = Some (''HTTP '' @ decimal (status response) @ '': '' @
                                     statusText response)\<rparr>)) \<and>
   (s < d \<and> outcome (fetch url) = Rejected (ErrorObject nm msg) \<longrightarrow>
      fetchJson fetch url options =
        (s, Fulfilled \<lparr>data = None,
                       error = Some (if nm = ''AbortError'' then ''Request timed out''
                                     else msg)\<rparr>) \<and>
      fetchText fetch url options =
        (s, Fulfilled \<lparr>data = None,
                       error = Some (if nm = ''AbortError'' then ''Request timed out''
                                     else msg)\<rparr>)) \<and>
   (s < d \<and> outcome (fetch url) = Rejected (NonError shown) \<longrightarrow>
      fetchJson fetch url options = (s, Fulfilled \<lparr>data = None, error = Some shown\<rparr>) \<and>
      fetchText fetch url options = (s, Fulfilled \<lparr>data = None, error = Some shown\<rparr>)) \<and>
   (s < d \<and> outcome (fetch url) = Fulfilled response \<and> ok response \<and>
    json_body response = (jt, jb) \<and> s + jt < d \<longrightarrow>
      (jb = Fulfilled jd \<longrightarrow>
         fetchJson fetch url options = (s + jt, Fulfilled \<lparr>data = jd, error = None\<rparr>)) \<and>
      (jb = Rejected (ErrorObject nm msg) \<longrightarrow>
         fetchJson fetch url options =
           (s + jt, Fulfilled \<lparr>data = None,
                               error = Some (if nm = ''AbortError'' then ''Request timed out''
                                             else msg)\<rparr>)) \<and>
      (jb = Rejected (NonError shown) \<longrightarrow>
         fetchJson fetch url options =
           (s + jt, Fulfilled \<lparr>data = None, error = Some shown\<rparr>))) \<and>
   (s < d \<and> outcome (fetch url) = Fulfilled response \<and> ok response \<and>
    text_body response = (tt, tb) \<and> s + tt < d \<longrightarrow>
      (tb = Fulfilled td \<longrightarrow>
         fetchText fetch url options =
           (s + tt, Fulfilled \<lparr>data = Some td, error = None\<rparr>)) \<and>
      (tb = Rejected (ErrorObject nm msg) \<longrightarrow>
         fetchText fetch url options =
           (s + tt, Fulfilled \<lparr>data = None,
                               error = Some (if nm = ''AbortError'' then ''Request timed out''
                                             else msg)\<rparr>)) \<and>
      (tb = Rejected (NonError shown) \<longrightarrow>
         fetchText fetch url options =
           (s + tt, Fulfilled \<lparr>data = None, error = Some shown\<rparr>))) \<and>
   (fetchJson fetch url options = (t1, Fulfilled jres) \<longrightarrow>
      (data jres = None \<or> error jres = None) \<and>
      (data jres = None \<and> error jres = None \<longrightarrow>
         (\<exists>r b. outcome (fetch url) = Fulfilled r \<and> ok r \<and>
                json_body r = (b, Fulfilled None)))) \<and>
   (fetchText fetch url options = (t2, Fulfilled tres) \<longrightarrow>
      (data tres = None) \<noteq> (error tres = None))"
proof -
  note [simp] = assms
  have a: "\<exists>t res. fetchJson fetch url options = (t, Fulfilled res)"
    by (rule fetchJson_total)
  have b: "\<exists>t res. fetchText fetch url options = (t, Fulfilled res)"
    by (rule fetchText_total)
  have c: "timeout options = None \<longrightarrow> d = 10000"
    by (simp add: default_delay)
  have e: "d \<le> s \<longrightarrow>
      fetchJson fetch url options =
        (d, Fulfilled \<lparr>data = None, error = Some ''Request timed out''\<rparr>) \<and>
      fetchText fetch url options =
        (d, Fulfilled \<lparr>data = None, error = Some ''Request timed out''\<rparr>)"
    by (simp add: fetchJson_aborted fetchText_aborted)
  have f: "s < d \<and> outcome (fetch url) = Fulfilled response \<and> \<not> ok response \<longrightarrow>
      fetchJson fetch url options =
        (s, Fulfilled \<lparr>data = None,
                       error = Some (''HTTP '' @ decimal (status response) @ '': '' @
                                     statusText response)\<rparr>) \<and>
      fetchText fetch url options =
        (s, Fulfilled \<lparr>data = None,
                       error = Some (''HTTP '' @ decimal (status response) @ '': '' @
                                     statusText response)\<rparr>)"
    by (simp add: fetchJson_bad_status fetchText_bad_status)
  have g: "s < d \<and> outcome (fetch url) = Rejected (ErrorObject nm msg) \<longrightarrow>
      fetchJson fetch url options =
        (s, Fulfilled \<lparr>data = None,
                       error = Some (if nm = ''AbortError'' then ''Request timed out''
                                     else msg)\<rparr>) \<and>
      fetchText fetch url options =
        (s, Fulfilled \<lparr>data = None,
                       error = Some (if nm = ''AbortError'' then ''Request timed out''
                                     else msg)\<rparr>)"
    by (simp add: fetchJson_rejected fetchText_rejected on_error_named del: on_error.simps)
  have h: "s < d \<and> outcome (fetch url) = Rejected (NonError shown) \<longrightarrow>
      fetchJson fetch url options = (s, Fulfilled \<lparr>data = None, error = Some shown\<rparr>) \<and>
      fetchText fetch url options = (s, Fulfilled \<lparr>data = None, error = Some shown\<rparr>)"
    by (simp add: fetchJson_rejected fetchText_rejected on_error_other del: on_error.simps)
  have i: "s < d \<and> outcome (fetch url) = Fulfilled response \<and> ok response \<and>
    json_body response = (jt, jb) \<and> s + jt < d \<longrightarrow>
      (jb = Fulfilled jd \<longrightarrow>
         fetchJson fetch url options = (s + jt, Fulfilled \<lparr>data = jd, error = None\<rparr>)) \<and>
      (jb = Rejected (ErrorObject nm msg) \<longrightarrow>
         fetchJson fetch url options =
           (s + jt, Fulfilled \<lparr>data = None,
                               error = Some (if nm = ''AbortError'' then ''Request timed out''
                                             else msg)\<rparr>)) \<and>
      (jb = Rejected (NonError shown) \<longrightarrow>
         fetchJson fetch url options =
           (s + jt, Fulfilled \<lparr>data = None, error = Some shown\<rparr>))"
    by (simp add: fetchJson_body_read fetchJson_body_failed on_error_named on_error_other
             del: on_error.simps)
  have j: "s < d \<and> outcome (fetch url) = Fulfilled response \<and> ok response \<and>
    text_body response = (tt, tb) \<and> s + tt < d \<longrightarrow>
      (tb = Fulfilled td \<longrightarrow>
         fetchText fetch url options =
           (s + tt, Fulfilled \<lparr>data = Some td, error = None\<rparr>)) \<and>
      (tb = Rejected (ErrorObject nm msg) \<longrightarrow>
         fetchText fetch url options =
           (s + tt, Fulfilled \<lparr>data = None,
                               error = Some (if nm = ''AbortError'' then ''Request timed out''
                                             else msg)\<rparr>)) \<and>
      (tb = Rejected (NonError shown) \<longrightarrow>
         fetchText fetch url options =
           (s + tt, Fulfilled \<lparr>data = None, error = Some shown\<rparr>))"
    by (simp add: fetchText_body_read fetchText_body_failed on_error_named on_error_other
             del: on_error.simps)
  have k: "fetchJson fetch url options = (t1, Fulfilled jres) \<longrightarrow>
      (data jres = None \<or> error jres = None) \<and>
      (data jres = None \<and> error jres = None \<longrightarrow>
         (\<exists>r b. outcome (fetch url) = Fulfilled r \<and> ok r \<and>
                json_body r = (b, Fulfilled None)))"
    using fetchJson_shape [of fetch url options t1 jres] by blast
  have l: "fetchText fetch url options = (t2, Fulfilled tres) \<longrightarrow>
      (data tres = None) \<noteq> (error tres = None)"
    using fetchText_shape [of fetch url options t2 tres] by blast
  show ?thesis by (intro conjI a b c e f g h i j k l)
qed

theorem fetch_results_structured_witness:
  "fetchJson slow_upstream ''https://api.github.com/repos/o/r'' \<lparr>timeout = None\<rparr> =
     (10000, Fulfilled \<lparr>data = None, error = Some ''Request timed out''\<rparr>) \<and>
   fetchText missing_upstream ''https://example.com/private'' \<lparr>timeout = None\<rparr> =
     (120, Fulfilled \<lparr>data = None, error = Some ''HTTP 404: Not Found''\<rparr>) \<and>
   fetchJson failing_upstream ''https://api.example.com/fail'' \<lparr>timeout = None\<rparr> =
     (5, Fulfilled \<lparr>data = None, error = Some ''Network error''\<rparr>) \<and>
   fetchText odd_upstream ''https://example.com/weird'' \<lparr>timeout = None\<rparr> =
     (5, Fulfilled \<lparr>data = None, error = Some ''string error''\<rparr>) \<and>
   fetchJson garbled_upstream ''https://api.example.com/bad-json'' \<lparr>timeout = None\<rparr> =
     (122, Fulfilled \<lparr>data = None, error = Some ''Unexpected token''\<rparr>) \<and>
   fetchText garbled_upstream ''https://api.example.com/bad-json'' \<lparr>timeout = None\<rparr> =
     (122, Fulfilled \<lparr>data = None, error = Some ''stream closed''\<rparr>) \<and>
   fetchText null_upstream ''https://example.com/null'' \<lparr>timeout = None\<rparr> =
     (122, Fulfilled \<lparr>data = Some ''null'', error = None\<rparr>)"
proof -
  have t: "timer_delay (timeout_of \<lparr>timeout = None\<rparr>) = 10000"
    by (simp add: default_delay)
  have a: "fetchJson slow_upstream ''https://api.github.com/repos/o/r'' \<lparr>timeout = None\<rparr> =
     (10000, Fulfilled \<lparr>data = None, error = Some ''Request timed out''\<rparr>)"
    using fetch_results_structured
      [OF refl refl, where fetch = slow_upstream and options = "\<lparr>timeout = None\<rparr>"
         and url = "''https://api.github.com/repos/o/r''"]
    by (simp add: t slow_upstream_def)
  have b: "fetchText missing_upstream ''https://example.com/private'' \<lparr>timeout = None\<rparr> =
     (120, Fulfilled \<lparr>data = None, error = Some ''HTTP 404: Not Found''\<rparr>)"
    using fetch_results_structured
      [OF refl refl, where fetch = missing_upstream and options = "\<lparr>timeout = None\<rparr>"
         and url = "''https://example.com/private''"
         and response = "\<lparr>ok = False, status = 404, statusText = ''Not Found'',
                          json_body = (2, Rejected (ErrorObject ''SyntaxError'' ''Unexpected token'')),
                          text_body = (2, Fulfilled ''Not Found'')\<rparr>"]
    by (simp add: t missing_upstream_def decimal_404)
  have c: "fetchJson failing_upstream ''https://api.example.com/fail'' \<lparr>timeout = None\<rparr> =
     (5, Fulfilled \<lparr>data = None, error = Some ''Network error''\<rparr>)"
    using fetch_results_structured
      [OF refl refl, where fetch = failing_upstream and options = "\<lparr>timeout = None\<rparr>"
         and url = "''https://api.example.com/fail''"
         and nm = "''Error''" and msg = "''Network error''"]
    by (simp add: t failing_upstream_def)
  have d: "fetchText odd_upstream ''https://example.com/weird'' \<lparr>timeout = None\<rparr> =
     (5, Fulfilled \<lparr>data = None, error = Some ''string error''\<rparr>)"
    using fetch_results_structured
      [OF refl refl, where fetch = odd_upstream and options = "\<lparr>timeout = None\<rparr>"
         and url = "''https://example.com/weird''" and shown = "''string error''"]
    by (simp add: t odd_upstream_def)
  note garbled = fetch_results_structured
      [OF refl refl, where fetch = garbled_upstream and options = "\<lparr>timeout = None\<rparr>"
         and url = "''https://api.example.com/bad-json''"
         and response = "\<lparr>ok = True, status = 200, statusText = ''OK'',
                          json_body = (2, Rejected (ErrorObject ''SyntaxError'' ''Unexpected token'')),
                          text_body = (2, Rejected (NonError ''stream closed''))\<rparr>"
         and jt = 2 and jb = "Rejected (ErrorObject ''SyntaxError'' ''Unexpected token'')"
         and tt = 2 and tb = "Rejected (NonError ''stream closed'')"
         and nm = "''SyntaxError''" and msg = "''Unexpected token''"
         and shown = "''stream closed''"]
  have e: "fetchJson garbled_upstream ''https://api.example.com/bad-json'' \<lparr>timeout = None\<rparr> =
     (122, Fulfilled \<lparr>data = None, error = Some ''Unexpected token''\<rparr>)"
    using garbled by (simp add: t garbled_upstream_def)
  have f: "fetchText garbled_upstream ''https://api.example.com/bad-json'' \<lparr>timeout = None\<rparr> =
     (122, Fulfilled \<lparr>data = None, error = Some ''stream closed''\<rparr>)"
    using garbled by (simp add: t garbled_upstream_def)
  have g: "fetchText null_upstream ''https://example.com/null'' \<lparr>timeout = None\<rparr> =
     (122, Fulfilled \<lparr>data = Some ''null'', error = None\<rparr>)"
    using fetch_results_structured
      [OF refl refl, where fetch = null_upstream and options = "\<lparr>timeout = None\<rparr>"
         and url = "''https://example.com/null''"
         and response = "\<lparr>ok = True, status = 200, statusText = ''OK'',
                          json_body = (2, Fulfilled None),
                          text_body = (2, Fulfilled ''null'')\<rparr>"
         and tt = 2 and tb = "Fulfilled ''null''" and td = "''null''"]
    by (simp add: t null_upstream_def)
  show ?thesis by (intro conjI a b c d e f g)
qed

text \<open>
  The claim as it was stated fails at four inputs. A 200 response whose body is \<open>null\<close>
  gives neither \<open>data\<close> nor \<open>error\<close>. A body that takes a minute to read is read to
  its end, well after the 10 seconds of the timer, which was cleared when the headers
  arrived. A caller's timeout of 20 seconds lets a fetch of 15 seconds through. A timeout
  above \<open>2^31 - 1\<close> ms aborts the fetch after 1 ms.
\<close>

theorem fetch_results_counterexample:
  "fetchJson null_upstream ''https://registry.npmjs.org/x'' \<lparr>timeout = None\<rparr> =
     (122, Fulfilled \<lparr>data = None, error = None\<rparr>) \<and>
   fetchText trickle_upstream ''https://registry.npmjs.org/x'' \<lparr>timeout = None\<rparr> =
     (60120, Fulfilled \<lparr>data = Some ''{}'', error = None\<rparr>) \<and>
   fetchJson slow_upstream ''https://registry.npmjs.org/x'' \<lparr>timeout = Some 20000\<rparr> =
     (15003, Fulfilled \<lparr>data = Some ''{}'', error = None\<rparr>) \<and>
   fetchText missing_upstream ''https://registry.npmjs.org/x'' \<lparr>timeout = Some 3000000000\<rparr> =
     (1, Fulfilled \<lparr>data = None, error = Some ''Request timed out''\<rparr>)"
  by (simp add: fetchJson_def fetchText_def fetchWithTimeout_def timeout_of_def
        DEFAULT_TIMEOUT_def timer_delay_def AbortError_def resolved_def
        null_upstream_def slow_upstream_def missing_upstream_def trickle_upstream_def)

subsection \<open>C8: tool names are unique\<close>

text \<open>
  C8: no two descriptors of \<open>allTools\<close>, the GitHub, npm and documentation tools
  together, have the same name.
\<close>

theorem allTools_names_distinct: "distinct (map name allTools)"
  by (simp add: allTools_def githubTools_def npmTools_def docsTools_def)

subsection \<open>C9: engines are configured before they are connected\<close>

text \<open>
  C9: \<open>createMcpServer\<close> registers every descriptor of \<open>allTools\<close> on the server it
  allocates, in order. In every reachable state, a session-creating POST has registered
  all of them on its server by the time it connects that server, whether or not a session
  is stored afterwards; and for every entry of the map, the names registered on its
  server when it was connected are those of \<open>allTools\<close>.
\<close>

theorem engines_fully_configured:
  assumes "st = run evs initial"
  shows "trace (snd (createMcpServer st0)) =
           trace st0 @ NewMcpServer (fst (createMcpServer st0)) #
             map (\<lambda>t. RegisterTool (fst (createMcpServer st0)) (name t) (description t)) allTools \<and>
         (resolve (sessions st) (session_header req) = None \<longrightarrow>
            registered_at_connect (trace (snd (post_mcp k req st))) (next_ref st) [] =
              Some (map name allTools)) \<and>
         (sessions st sid = Some s \<longrightarrow>
            registered_at_connect (trace st) (server s) [] = Some (map name allTools))"
proof -
  have inv: "invariant st" using assms(1) by (simp add: invariant_reachable)
  have a: "trace (snd (createMcpServer st0)) =
           trace st0 @ NewMcpServer (fst (createMcpServer st0)) #
             map (\<lambda>t. RegisterTool (fst (createMcpServer st0)) (name t) (description t)) allTools"
    by (simp add: createMcpServer_eq)
  have fresh: "\<forall>e \<in> set (trace st). \<forall>r \<in> set (refs_of e). r < next_ref st"
    using inv by (simp add: invariant_def)
  have b: "registered_at_connect (trace (snd (post_mcp k req st))) (next_ref st) [] =
              Some (map name allTools)"
    if "resolve (sessions st) (session_header req) = None"
  proof -
    have miss: "falsy_or_unknown st req" using that by (rule resolve_None_falsy)
    have "configured (trace st @ setup_trace (next_ref st) @ fs) (next_ref st)" for fs
      using fresh by (rule configured_fresh)
    from this [of "[]"] this
    have "configured (trace (snd (post_mcp k req st))) (next_ref st)"
      by (simp add: post_mcp_create [OF miss] Let_def split: option.splits)
    then show ?thesis by (simp add: configured_def)
  qed
  have c: "registered_at_connect (trace st) (server s) [] = Some (map name allTools)"
    if "sessions st sid = Some s"
    using inv that by (auto simp: invariant_def configured_def)
  show ?thesis using a b c by blast
qed

theorem engines_fully_configured_witness:
  "registered_at_connect (trace (snd (post_mcp demo_sdk demo_initialize demo_live))) 2 [] =
     Some (map name allTools) \<and>
   registered_at_connect (trace demo_live) 0 [] = Some (map name allTools)"
proof -
  have a: "demo_live = run [POST demo_sdk demo_initialize] initial"
    by (simp only: demo_created)
  have b: "resolve (sessions demo_live) (session_header demo_initialize) = None"
    by (simp add: resolve_def demo_initialize_def)
  have n: "next_ref demo_live = 2" "server \<lparr>server = 0, transport = 1\<rparr> = 0"
    by (simp_all add: demo_live_def)
  show ?thesis
    using engines_fully_configured
      [OF a, of _ demo_initialize demo_sdk demo_id "\<lparr>server = 0, transport = 1\<rparr>"]
      b demo_live_entry
    by (simp add: n)
qed

subsection \<open>C10: truncate\<close>

text \<open>
  C10, amended: for every string and every bound that is a non-negative integer,
  \<open>truncate\<close> returns the text unchanged when its length is at most the bound, and
  otherwise the first \<open>maxLength\<close> code units of the text followed by the marker, so
  that the result is longer than the bound by the length of the marker. (For a negative
  bound \<open>slice\<close> counts from the end of the text.)
\<close>

theorem truncate_nonneg_bound:
  "0 \<le> maxLength \<Longrightarrow>
     truncate_text text maxLength =
       (if int (length text) \<le> maxLength then text
        else take (nat maxLength) text @ truncated_marker) \<and>
     (maxLength < int (length text) \<longrightarrow>
        int (length (truncate_text text maxLength)) = maxLength + int (length truncated_marker))"
  by (auto simp: truncate_text_def js_slice_prefix)

theorem truncate_nonneg_bound_witness:
  "(0::int) \<le> 5 \<and> truncate_text ''Hello, world!'' 5 = ''Hello'' @ truncated_marker \<and>
   int (length (truncate_text ''Hello, world!'' 5)) = 5 + int (length truncated_marker)"
  using truncate_nonneg_bound [of 5 "''Hello, world!''"] by simp

theorem truncate_negative_bound_counterexample:
  "truncate_text ''hello'' (- 2) = ''hel'' @ truncated_marker \<and>
   truncate_text ''hello'' (- 2) \<noteq> take (nat (- 2)) ''hello'' @ truncated_marker \<and>
   int (length (truncate_text ''hello'' (- 2))) \<noteq> - 2 + int (length truncated_marker)"
  by (simp add: truncate_text_def js_slice_def truncated_marker_def)

end
